theory Spec2Isabelle
  imports Main "HOL-Library.AList"
begin

section \<open>Data model\<close>

text \<open>
  The test-mode route keeps one JSON document with three lists. The records below follow
  the schemas of \<^verbatim>\<open>src/lib/types.ts\<close> and the objects the route builds. A status is the
  JSON string the route stores: the route never checks it against the enum, so it stays a
  \<open>string\<close>. Fields a handler never reads are gathered, uninterpreted, in the last field
  of each record (key and serialised value), so that a spread \<^verbatim>\<open>{...x, status: s}\<close>
  visibly keeps them.
\<close>

record component =
  comp_id :: string
  comp_name :: string
  comp_status :: string
  comp_updated_at :: "string option"
  comp_other :: "(string \<times> string) list"

record incident_update =
  upd_id :: string
  upd_status :: string
  upd_body :: "string option"
  upd_created_at :: string
  upd_updated_at :: string
  upd_display_at :: string

record incident =
  inc_id :: string
  inc_name :: string
  inc_status :: string
  inc_impact :: string
  inc_body :: "string option"
  inc_components :: "component list option"
  inc_component_ids :: "string list"
  inc_created_at :: string
  inc_updated_at :: string
  inc_incident_updates :: "incident_update list option"
  inc_other :: "(string \<times> string) list"

record template =
  tpl_id :: string
  tpl_name :: string
  tpl_body :: string
  tpl_other :: "(string \<times> string) list"

record TestData =
  components :: "component list"
  incidents :: "incident list"
  templates :: "template list"

text \<open>
  \<^verbatim>\<open>getTestData\<close> parses the backing file and answers the zero-value document when the file
  is absent or unparsable; \<^verbatim>\<open>saveTestData\<close> replaces the whole file. The state threaded
  through the handlers is the file's content, \<open>None\<close> while there is no readable file.
\<close>

definition emptyTestData :: TestData where
  "emptyTestData = \<lparr>components = [], incidents = [], templates = []\<rparr>"

definition getTestData :: "TestData option \<Rightarrow> TestData" where
  "getTestData file = (case file of None \<Rightarrow> emptyTestData | Some d \<Rightarrow> d)"

definition saveTestData :: "TestData \<Rightarrow> TestData option \<Rightarrow> TestData option" where
  "saveTestData d file = Some d"

text \<open>\<^verbatim>\<open>Array.prototype.findIndex\<close>, with \<open>None\<close> for the \<open>-1\<close> of JavaScript.\<close>

fun findIndex :: "('a \<Rightarrow> bool) \<Rightarrow> 'a list \<Rightarrow> nat option" where
  "findIndex P [] = None"
| "findIndex P (x # xs) =
     (if P x then Some 0 else map_option Suc (findIndex P xs))"

section \<open>Status Projection Engine: the read of the components resource\<close>

text \<open>
  Lines 406 to 466 of the test-mode route, the part of \<^verbatim>\<open>GET\<close> that runs on every read
  of \<^verbatim>\<open>resource=components\<close> once the store is loaded. The lines before it, which
  fill an empty store from the live system's component list, are not part of the engine.
  Every \<^verbatim>\<open>new Date().toISOString()\<close> of one request is the parameter \<open>now\<close>.
\<close>

definition isOpen :: "incident \<Rightarrow> bool" where
  "isOpen inc \<longleftrightarrow> inc_status inc \<noteq> ''resolved'' \<and> inc_status inc \<noteq> ''postmortem''"

definition openIncidents :: "TestData \<Rightarrow> incident list" where
  "openIncidents testData = filter isOpen (incidents testData)"

text \<open>
  The guard \<^verbatim>\<open>incident.components && Array.isArray(incident.components)\<close>: an incident
  without a components array contributes no snapshot.
\<close>

definition snapshots :: "incident \<Rightarrow> component list" where
  "snapshots inc = (case inc_components inc of None \<Rightarrow> [] | Some cs \<Rightarrow> cs)"

text \<open>
  The guard \<^verbatim>\<open>incidentComponent.status && incidentComponent.status !== 'operational'\<close>:
  the empty string is falsy in JavaScript.
\<close>

definition claimsStatus :: "component \<Rightarrow> bool" where
  "claimsStatus incidentComponent \<longleftrightarrow>
     comp_status incidentComponent \<noteq> [] \<and> comp_status incidentComponent \<noteq> ''operational''"

definition componentIdsAffectedByOpenIncidents :: "incident list \<Rightarrow> string set" where
  "componentIdsAffectedByOpenIncidents opens =
     set (map comp_id (filter claimsStatus (concat (map snapshots opens))))"

definition needsReset :: "string set \<Rightarrow> component \<Rightarrow> bool" where
  "needsReset affected c \<longleftrightarrow> comp_id c \<notin> affected \<and> comp_status c \<noteq> ''operational''"

definition resetPass :: "string \<Rightarrow> string set \<Rightarrow> component list \<Rightarrow> component list \<times> bool" where
  "resetPass now affected cs =
     (map (\<lambda>c. if needsReset affected c
               then c\<lparr>comp_status := ''operational'', comp_updated_at := Some now\<rparr>
               else c) cs,
      list_ex (needsReset affected) cs)"

text \<open>
  One step of the inner loop of the apply pass: the state is the component list with the
  flag \<^verbatim>\<open>componentsUpdated\<close>.
\<close>

definition applySnapshot ::
  "string \<Rightarrow> component \<Rightarrow> component list \<times> bool \<Rightarrow> component list \<times> bool" where
  "applySnapshot now incidentComponent st =
     (if claimsStatus incidentComponent then
        (case findIndex (\<lambda>c. comp_id c = comp_id incidentComponent) (fst st) of
           None \<Rightarrow> st
         | Some componentIndex \<Rightarrow>
             if comp_status (fst st ! componentIndex) \<noteq> comp_status incidentComponent
             then ((fst st)[componentIndex := (fst st ! componentIndex)
                      \<lparr>comp_status := comp_status incidentComponent,
                       comp_updated_at := Some now\<rparr>], True)
             else st)
      else st)"

definition applyIncident ::
  "string \<Rightarrow> incident \<Rightarrow> component list \<times> bool \<Rightarrow> component list \<times> bool" where
  "applyIncident now inc st = fold (applySnapshot now) (snapshots inc) st"

definition applyPass ::
  "string \<Rightarrow> incident list \<Rightarrow> component list \<times> bool \<Rightarrow> component list \<times> bool" where
  "applyPass now opens st = fold (applyIncident now) opens st"

text \<open>
  The outcome of one read: the component list answered, the content of the backing file
  afterwards, and whether \<^verbatim>\<open>saveTestData\<close> was called.
\<close>

record projection =
  answered :: "component list"
  stored :: "TestData option"
  wrote :: bool

definition syncComponents :: "string \<Rightarrow> TestData option \<Rightarrow> projection" where
  "syncComponents now file =
     (let testData = getTestData file;
          opens = openIncidents testData;
          affected = componentIdsAffectedByOpenIncidents opens;
          (cs1, componentsReset) = resetPass now affected (components testData);
          (cs2, componentsUpdated) = applyPass now opens (cs1, False);
          testData' = testData\<lparr>components := cs2\<rparr>
      in if componentsUpdated \<or> componentsReset
         then \<lparr>answered = cs2, stored = saveTestData testData' file, wrote = True\<rparr>
         else \<lparr>answered = cs2, stored = file, wrote = False\<rparr>)"

text \<open>
  The two passes without the persistence around them, and two readings of a component
  list used to state the properties: the status found for an id the way the route looks a
  component up (the first entry with that id), and the part of a component the engine
  must leave alone.
\<close>

definition projected :: "string \<Rightarrow> TestData \<Rightarrow> component list \<times> bool" where
  "projected now testData =
     applyPass now (openIncidents testData)
       (fst (resetPass now (componentIdsAffectedByOpenIncidents (openIncidents testData))
               (components testData)), False)"

definition statusOf :: "string \<Rightarrow> component list \<Rightarrow> string option" where
  "statusOf k cs = map_option comp_status (find (\<lambda>c. comp_id c = k) cs)"

definition sameFrame :: "component \<Rightarrow> component \<Rightarrow> bool" where
  "sameFrame c c' \<longleftrightarrow>
     comp_id c' = comp_id c \<and> comp_name c' = comp_name c \<and> comp_other c' = comp_other c"

text \<open>The snapshots of one incident that claim a status for the component \<open>k\<close>, in order.\<close>

definition claimsFor :: "string \<Rightarrow> incident \<Rightarrow> component list" where
  "claimsFor k inc = filter (\<lambda>s. claimsStatus s \<and> comp_id s = k) (snapshots inc)"

section \<open>Incident Lifecycle Manager: create, update and delete of the test-mode route\<close>

text \<open>
  The handlers are modelled from the point where \<^verbatim>\<open>validateAuth\<close> has accepted the
  request. \<^verbatim>\<open>generateTestId()\<close> reads the clock and a random source, so every identifier
  it returns is a parameter.
\<close>

text \<open>\<^verbatim>\<open>a || b\<close> on strings that may be absent: absent and empty strings are falsy.\<close>

definition jsOr :: "string option \<Rightarrow> string \<Rightarrow> string" where
  "jsOr a b = (case a of None \<Rightarrow> b | Some s \<Rightarrow> if s \<noteq> [] then s else b)"

definition jsOrOpt :: "string option \<Rightarrow> string option \<Rightarrow> string option" where
  "jsOrOpt a b = (case a of None \<Rightarrow> b | Some s \<Rightarrow> if s \<noteq> [] then Some s else b)"

text \<open>
  The \<^verbatim>\<open>components\<close> key of a payload: a map from component id to status (its entries in
  the order of \<^verbatim>\<open>Object.entries\<close>), an array of snapshots, or neither.
\<close>

datatype components_payload =
  NoComponents
| MapForm "(string \<times> string) list"
| ArrayForm "component list"

record create_body =
  c_name :: string
  c_status :: string
  c_impact :: "string option"
  c_body :: "string option"
  c_components :: components_payload
  c_component_ids :: "string list option"

record update_payload =
  u_status :: "string option"
  u_body :: "string option"
  u_display_at :: "string option"

text \<open>
  The payload of an update. The route spreads every key of it over the stored incident, so
  the payload has one optional entry for each field of an incident, \<open>None\<close> while the key
  is absent, and \<open>p_other\<close> for the keys that are no field of the record. A value is taken
  at the type of the field it overrides. \<open>p_incident_update\<close> is \<open>None\<close> when the key is
  absent or falsy.
\<close>

record patch_body =
  p_id :: "string option"
  p_name :: "string option"
  p_status :: "string option"
  p_impact :: "string option"
  p_body :: "string option"
  p_component_ids :: "string list option"
  p_created_at :: "string option"
  p_updated_at :: "string option"
  p_incident_updates :: "incident_update list option"
  p_components :: components_payload
  p_incident_update :: "update_payload option"
  p_other :: "(string \<times> string) list"

datatype error = IdRequired | NotFound

definition stubComponent :: "string \<Rightarrow> string \<Rightarrow> component" where
  "stubComponent componentId status =
     \<lparr>comp_id = componentId, comp_name = ''Component '' @ componentId, comp_status = status,
      comp_updated_at = None, comp_other = []\<rparr>"

text \<open>The \<^verbatim>\<open>Object.entries(body.components).map(...)\<close> of create and update.\<close>

definition normalizeComponents :: "(string \<times> string) list \<Rightarrow> component list \<Rightarrow> component list" where
  "normalizeComponents entries cs =
     map (\<lambda>(componentId, status).
            case find (\<lambda>c. comp_id c = componentId) cs of
              Some component \<Rightarrow> component\<lparr>comp_status := status\<rparr>
            | None \<Rightarrow> stubComponent componentId status) entries"

text \<open>The \<^verbatim>\<open>Object.entries(body.components).forEach(...)\<close> that follows it.\<close>

definition updateComponentStatuses ::
  "string \<Rightarrow> (string \<times> string) list \<Rightarrow> component list \<Rightarrow> component list" where
  "updateComponentStatuses now entries cs =
     fold (\<lambda>(componentId, status) acc.
             case findIndex (\<lambda>c. comp_id c = componentId) acc of
               None \<Rightarrow> acc
             | Some componentIndex \<Rightarrow>
                 acc[componentIndex := (acc ! componentIndex)
                       \<lparr>comp_status := status, comp_updated_at := Some now\<rparr>]) entries cs"

text \<open>
  The conversion of a payload's components, shared by create and update: the array for
  the incident and the backing file after the conversion. For a map the handler reads the
  file a second time into \<^verbatim>\<open>testDataSnapshot\<close>, updates the components there and saves
  that snapshot. \<open>dflt\<close> is the initial value of \<^verbatim>\<open>componentsArray\<close>.
\<close>

definition convertComponents ::
  "string \<Rightarrow> components_payload \<Rightarrow> component list \<Rightarrow> TestData option
     \<Rightarrow> component list \<times> TestData option" where
  "convertComponents now payload dflt file =
     (case payload of
        MapForm entries \<Rightarrow>
          (let testDataSnapshot = getTestData file;
               componentsArray = normalizeComponents entries (components testDataSnapshot);
               testDataSnapshot' = testDataSnapshot
                 \<lparr>components := updateComponentStatuses now entries (components testDataSnapshot)\<rparr>
           in (componentsArray, saveTestData testDataSnapshot' file))
      | ArrayForm arr \<Rightarrow> (arr, file)
      | NoComponents \<Rightarrow> (dflt, file))"

text \<open>\<^verbatim>\<open>POST\<close> with \<^verbatim>\<open>resource=incidents\<close>: the answer and the backing file afterwards.\<close>

definition POST_incidents ::
  "string \<Rightarrow> string \<Rightarrow> string \<Rightarrow> create_body \<Rightarrow> TestData option \<Rightarrow> incident \<times> TestData option" where
  "POST_incidents now incidentId updateId body file =
     (let testData = getTestData file;
          (componentsArray, file1) = convertComponents now (c_components body) [] file;
          newIncident =
            \<lparr>inc_id = incidentId,
             inc_name = c_name body,
             inc_status = c_status body,
             inc_impact = jsOr (c_impact body) ''minor'',
             inc_body = c_body body,
             inc_components = Some componentsArray,
             inc_component_ids = (case c_component_ids body of None \<Rightarrow> [] | Some ids \<Rightarrow> ids),
             inc_created_at = now,
             inc_updated_at = now,
             inc_incident_updates = Some
               [\<lparr>upd_id = updateId, upd_status = c_status body, upd_body = c_body body,
                 upd_created_at = now, upd_updated_at = now, upd_display_at = now\<rparr>],
             inc_other = []\<rparr>;
          testData' = testData\<lparr>incidents := newIncident # incidents testData\<rparr>
      in (newIncident, saveTestData testData' file1))"

text \<open>
  The spread \<^verbatim>\<open>{...items[index], ...body}\<close>: every key present in the payload overrides
  the stored field, \<^verbatim>\<open>id\<close>, \<^verbatim>\<open>created_at\<close> and \<^verbatim>\<open>incident_updates\<close> included. The
  \<^verbatim>\<open>components\<close> key is left to the caller, which sets it after the spread.
\<close>

definition spreadBody :: "incident \<Rightarrow> patch_body \<Rightarrow> incident" where
  "spreadBody incident body =
     \<lparr>inc_id = (case p_id body of None \<Rightarrow> inc_id incident | Some v \<Rightarrow> v),
      inc_name = (case p_name body of None \<Rightarrow> inc_name incident | Some v \<Rightarrow> v),
      inc_status = (case p_status body of None \<Rightarrow> inc_status incident | Some v \<Rightarrow> v),
      inc_impact = (case p_impact body of None \<Rightarrow> inc_impact incident | Some v \<Rightarrow> v),
      inc_body = (case p_body body of None \<Rightarrow> inc_body incident | Some v \<Rightarrow> Some v),
      inc_components = inc_components incident,
      inc_component_ids =
        (case p_component_ids body of None \<Rightarrow> inc_component_ids incident | Some v \<Rightarrow> v),
      inc_created_at =
        (case p_created_at body of None \<Rightarrow> inc_created_at incident | Some v \<Rightarrow> v),
      inc_updated_at =
        (case p_updated_at body of None \<Rightarrow> inc_updated_at incident | Some v \<Rightarrow> v),
      inc_incident_updates =
        (case p_incident_updates body of None \<Rightarrow> inc_incident_updates incident
         | Some v \<Rightarrow> Some v),
      inc_other = fold (\<lambda>(k, v). AList.update k v) (p_other body) (inc_other incident)\<rparr>"

text \<open>The branch of \<^verbatim>\<open>PATCH\<close> taken when \<^verbatim>\<open>body.incident_update\<close> is present.\<close>

definition addUpdate :: "string \<Rightarrow> string \<Rightarrow> update_payload \<Rightarrow> patch_body \<Rightarrow> incident \<Rightarrow> incident" where
  "addUpdate now updateId upd body incident = incident
     \<lparr>inc_incident_updates := Some
        ((case inc_incident_updates incident of None \<Rightarrow> [] | Some us \<Rightarrow> us) @
         [\<lparr>upd_id = updateId,
           upd_status = jsOr (u_status upd) (inc_status incident),
           upd_body = jsOrOpt (u_body upd) (p_body body),
           upd_created_at = now,
           upd_updated_at = now,
           upd_display_at = jsOr (u_display_at upd) now\<rparr>]),
      inc_status := jsOr (p_status body) (inc_status incident),
      inc_updated_at := now\<rparr>"

text \<open>The branch taken otherwise: the incident written back and the file after the conversion.\<close>

definition replaceFields ::
  "string \<Rightarrow> patch_body \<Rightarrow> incident \<Rightarrow> TestData option \<Rightarrow> incident \<times> TestData option" where
  "replaceFields now body incident file =
     (let (componentsArray, file1) =
            convertComponents now (p_components body) (snapshots incident) file
      in ((spreadBody incident body)
            \<lparr>inc_components := (if length componentsArray > 0 then Some componentsArray
                                 else inc_components incident),
             inc_updated_at := now\<rparr>, file1))"

text \<open>\<^verbatim>\<open>PATCH\<close> with \<^verbatim>\<open>resource=incidents\<close>; \<open>itemId\<close> is the query parameter, \<open>None\<close> if missing.\<close>

definition PATCH_incidents ::
  "string \<Rightarrow> string \<Rightarrow> string option \<Rightarrow> patch_body \<Rightarrow> TestData option
     \<Rightarrow> (error + incident) \<times> TestData option" where
  "PATCH_incidents now updateId itemId body file =
     (let testData = getTestData file in
      if itemId = None \<or> itemId = Some [] then (Inl IdRequired, file)
      else case findIndex (\<lambda>item. Some (inc_id item) = itemId) (incidents testData) of
        None \<Rightarrow> (Inl NotFound, file)
      | Some index \<Rightarrow>
          (let incident = incidents testData ! index;
               (item, file1) =
                  (case p_incident_update body of
                     Some upd \<Rightarrow> (addUpdate now updateId upd body incident, file)
                   | None \<Rightarrow> replaceFields now body incident file);
               testData' = testData\<lparr>incidents := (incidents testData)[index := item]\<rparr>
           in (Inr item, saveTestData testData' file1)))"

text \<open>
  \<^verbatim>\<open>DELETE\<close>: \<open>resource\<close> and \<open>itemId\<close> are the query parameters. Any other resource name
  selects no list, so nothing is filtered out and the answer is not found.
\<close>

definition DELETE :: "string \<Rightarrow> string option \<Rightarrow> TestData option \<Rightarrow> (error + unit) \<times> TestData option" where
  "DELETE resource itemId file =
     (if itemId = None \<or> itemId = Some [] then (Inl IdRequired, file)
      else
        (let testData = getTestData file in
         if resource = ''components'' then
           (let filtered = filter (\<lambda>item. Some (comp_id item) \<noteq> itemId) (components testData)
            in if length filtered = length (components testData) then (Inl NotFound, file)
               else (Inr (), saveTestData (testData\<lparr>components := filtered\<rparr>) file))
         else if resource = ''incidents'' then
           (let filtered = filter (\<lambda>item. Some (inc_id item) \<noteq> itemId) (incidents testData)
            in if length filtered = length (incidents testData) then (Inl NotFound, file)
               else (Inr (), saveTestData (testData\<lparr>incidents := filtered\<rparr>) file))
         else if resource = ''templates'' then
           (let filtered = filter (\<lambda>item. Some (tpl_id item) \<noteq> itemId) (templates testData)
            in if length filtered = length (templates testData) then (Inl NotFound, file)
               else (Inr (), saveTestData (testData\<lparr>templates := filtered\<rparr>) file))
         else (Inl NotFound, file)))"

section \<open>Ephemeral item tracker\<close>

text \<open>
  The demo tracker keeps its own small document. As for the test data, the state is the
  content of the backing file and a missing or unparsable file reads as the empty tracker.
  \<^verbatim>\<open>isDemoMode()\<close> reads the process environment: it is the parameter \<open>demo\<close>.
\<close>

record DemoTracker =
  tr_incidents :: "string list"
  tr_components :: "string list"
  tr_templates :: "string list"
  lastCleanup :: "string option"

definition emptyTracker :: DemoTracker where
  "emptyTracker = \<lparr>tr_incidents = [], tr_components = [], tr_templates = [], lastCleanup = None\<rparr>"

definition getDemoTracker :: "DemoTracker option \<Rightarrow> DemoTracker" where
  "getDemoTracker file = (case file of None \<Rightarrow> emptyTracker | Some t \<Rightarrow> t)"

definition saveDemoTracker :: "DemoTracker \<Rightarrow> DemoTracker option \<Rightarrow> DemoTracker option" where
  "saveDemoTracker tracker file = Some tracker"

definition trackIncident :: "bool \<Rightarrow> string \<Rightarrow> DemoTracker option \<Rightarrow> DemoTracker option" where
  "trackIncident demo incidentId file =
     (if \<not> demo then file
      else let tracker = getDemoTracker file in
        if incidentId \<notin> set (tr_incidents tracker)
        then saveDemoTracker (tracker\<lparr>tr_incidents := tr_incidents tracker @ [incidentId]\<rparr>) file
        else file)"

definition trackComponent :: "bool \<Rightarrow> string \<Rightarrow> DemoTracker option \<Rightarrow> DemoTracker option" where
  "trackComponent demo componentId file =
     (if \<not> demo then file
      else let tracker = getDemoTracker file in
        if componentId \<notin> set (tr_components tracker)
        then saveDemoTracker (tracker\<lparr>tr_components := tr_components tracker @ [componentId]\<rparr>) file
        else file)"

definition trackTemplate :: "bool \<Rightarrow> string \<Rightarrow> DemoTracker option \<Rightarrow> DemoTracker option" where
  "trackTemplate demo templateId file =
     (if \<not> demo then file
      else let tracker = getDemoTracker file in
        if templateId \<notin> set (tr_templates tracker)
        then saveDemoTracker (tracker\<lparr>tr_templates := tr_templates tracker @ [templateId]\<rparr>) file
        else file)"

definition getTrackedItems :: "DemoTracker option \<Rightarrow> DemoTracker" where
  "getTrackedItems file = getDemoTracker file"

definition clearTrackedItems :: "string \<Rightarrow> DemoTracker option \<Rightarrow> DemoTracker option" where
  "clearTrackedItems now file =
     saveDemoTracker ((getDemoTracker file)
       \<lparr>tr_incidents := [], tr_components := [], tr_templates := [], lastCleanup := Some now\<rparr>) file"

definition removeTrackedIncident :: "string \<Rightarrow> DemoTracker option \<Rightarrow> DemoTracker option" where
  "removeTrackedIncident incidentId file =
     (let tracker = getDemoTracker file
      in saveDemoTracker
           (tracker\<lparr>tr_incidents := filter (\<lambda>i. i \<noteq> incidentId) (tr_incidents tracker)\<rparr>) file)"

definition removeTrackedComponent :: "string \<Rightarrow> DemoTracker option \<Rightarrow> DemoTracker option" where
  "removeTrackedComponent componentId file =
     (let tracker = getDemoTracker file
      in saveDemoTracker
           (tracker\<lparr>tr_components := filter (\<lambda>i. i \<noteq> componentId) (tr_components tracker)\<rparr>) file)"

definition removeTrackedTemplate :: "string \<Rightarrow> DemoTracker option \<Rightarrow> DemoTracker option" where
  "removeTrackedTemplate templateId file =
     (let tracker = getDemoTracker file
      in saveDemoTracker
           (tracker\<lparr>tr_templates := filter (\<lambda>i. i \<noteq> templateId) (tr_templates tracker)\<rparr>) file)"

text \<open>The operations the module exports that write the tracker, and a run of them.\<close>

datatype tracker_op =
  TrackIncident string
| TrackComponent string
| TrackTemplate string
| ClearTrackedItems string
| RemoveTrackedIncident string
| RemoveTrackedComponent string
| RemoveTrackedTemplate string

fun trackerStep :: "bool \<Rightarrow> tracker_op \<Rightarrow> DemoTracker option \<Rightarrow> DemoTracker option" where
  "trackerStep demo (TrackIncident i) file = trackIncident demo i file"
| "trackerStep demo (TrackComponent i) file = trackComponent demo i file"
| "trackerStep demo (TrackTemplate i) file = trackTemplate demo i file"
| "trackerStep demo (ClearTrackedItems now) file = clearTrackedItems now file"
| "trackerStep demo (RemoveTrackedIncident i) file = removeTrackedIncident i file"
| "trackerStep demo (RemoveTrackedComponent i) file = removeTrackedComponent i file"
| "trackerStep demo (RemoveTrackedTemplate i) file = removeTrackedTemplate i file"

definition trackerRun :: "bool \<Rightarrow> tracker_op list \<Rightarrow> DemoTracker option \<Rightarrow> DemoTracker option" where
  "trackerRun demo ops file = fold (trackerStep demo) ops file"

definition noDuplicates :: "DemoTracker \<Rightarrow> bool" where
  "noDuplicates tracker \<longleftrightarrow>
     distinct (tr_incidents tracker) \<and> distinct (tr_components tracker) \<and>
     distinct (tr_templates tracker)"

section \<open>Cleanup sweep\<close>

text \<open>
  The cron route. The live system is outside the program: what its delete endpoint
  answers for an id is a parameter, a function from the id to the outcome of the
  \<^verbatim>\<open>fetch\<close>. The outcome is a response with its HTTP status and text, or an exception,
  carrying a message when it is an \<^verbatim>\<open>Error\<close>.
\<close>

datatype response = Response nat string | Thrown "string option"

definition ok :: "nat \<Rightarrow> bool" where
  "ok status \<longleftrightarrow> 200 \<le> status \<and> status \<le> 299"

record cron_env =
  demoModeEnabled :: bool
  cronSecret :: "string option"
  apiKey :: "string option"
  pageId :: "string option"

definition truthy :: "string option \<Rightarrow> bool" where
  "truthy v \<longleftrightarrow> (case v of None \<Rightarrow> False | Some s \<Rightarrow> s \<noteq> [])"

definition validateCronRequest :: "cron_env \<Rightarrow> string option \<Rightarrow> bool" where
  "validateCronRequest env authHeader =
     (case cronSecret env of
        None \<Rightarrow> demoModeEnabled env
      | Some secret \<Rightarrow>
          if secret \<noteq> [] then authHeader = Some (''Bearer '' @ secret)
          else demoModeEnabled env)"

definition thrownMessage :: "string option \<Rightarrow> string" where
  "thrownMessage e = (case e of Some message \<Rightarrow> message | None \<Rightarrow> ''Unknown error'')"

type_synonym sweep_state = "DemoTracker option \<times> string list \<times> string list"

definition sweepIncident :: "(string \<Rightarrow> response) \<Rightarrow> string \<Rightarrow> sweep_state \<Rightarrow> sweep_state" where
  "sweepIncident deleteIncident incidentId st =
     (case st of (file, deleted, errors) \<Rightarrow>
        (case deleteIncident incidentId of
           Response status errorText \<Rightarrow>
             if ok status \<or> status = 404
             then (removeTrackedIncident incidentId file,
                   deleted @ [''incident:'' @ incidentId], errors)
             else (file, deleted, errors @ [''incident:'' @ incidentId @ '' - '' @ errorText])
         | Thrown e \<Rightarrow>
             (file, deleted, errors @ [''incident:'' @ incidentId @ '' - '' @ thrownMessage e])))"

definition sweepTemplate :: "(string \<Rightarrow> response) \<Rightarrow> string \<Rightarrow> sweep_state \<Rightarrow> sweep_state" where
  "sweepTemplate deleteTemplate templateId st =
     (case st of (file, deleted, errors) \<Rightarrow>
        (case deleteTemplate templateId of
           Response status errorText \<Rightarrow>
             if ok status \<or> status = 404
             then (removeTrackedTemplate templateId file,
                   deleted @ [''template:'' @ templateId], errors)
             else (file, deleted, errors @ [''template:'' @ templateId @ '' - '' @ errorText])
         | Thrown e \<Rightarrow>
             (file, deleted, errors @ [''template:'' @ templateId @ '' - '' @ thrownMessage e])))"

datatype cleanup_error = DemoModeNotEnabled | Unauthorized | ServerConfigurationError

record cleanup_report =
  rep_deleted :: "string list"
  rep_errors :: "string list option"
  rep_timestamp :: string

definition cleanupGET ::
  "cron_env \<Rightarrow> string option \<Rightarrow> (string \<Rightarrow> response) \<Rightarrow> (string \<Rightarrow> response) \<Rightarrow> string
     \<Rightarrow> DemoTracker option \<Rightarrow> (cleanup_error + cleanup_report) \<times> DemoTracker option" where
  "cleanupGET env authHeader deleteIncident deleteTemplate now file =
     (if \<not> demoModeEnabled env then (Inl DemoModeNotEnabled, file)
      else if \<not> validateCronRequest env authHeader then (Inl Unauthorized, file)
      else if \<not> truthy (apiKey env) \<or> \<not> truthy (pageId env)
      then (Inl ServerConfigurationError, file)
      else
        (let tracker = getTrackedItems file;
             st1 = fold (sweepIncident deleteIncident) (tr_incidents tracker) (file, [], []);
             (file', deleted, errors) = fold (sweepTemplate deleteTemplate) (tr_templates tracker) st1
         in (Inr \<lparr>rep_deleted = deleted,
                   rep_errors = (if length errors > 0 then Some errors else None),
                   rep_timestamp = now\<rparr>, file')))"

text \<open>The condition under which the sweep untracks an id.\<close>

definition untracks :: "response \<Rightarrow> bool" where
  "untracks r \<longleftrightarrow> (case r of Response status errorText \<Rightarrow> ok status \<or> status = 404 | Thrown e \<Rightarrow> False)"

text \<open>The line the sweep collects for an id whose delete call failed.\<close>

definition incidentError :: "(string \<Rightarrow> response) \<Rightarrow> string \<Rightarrow> string" where
  "incidentError deleteIncident i =
     ''incident:'' @ i @ '' - '' @
       (case deleteIncident i of Response status errorText \<Rightarrow> errorText
        | Thrown e \<Rightarrow> thrownMessage e)"

definition templateError :: "(string \<Rightarrow> response) \<Rightarrow> string \<Rightarrow> string" where
  "templateError deleteTemplate i =
     ''template:'' @ i @ '' - '' @
       (case deleteTemplate i of Response status errorText \<Rightarrow> errorText
        | Thrown e \<Rightarrow> thrownMessage e)"

text \<open>The update log of an incident, empty while the field is absent.\<close>

definition updatesOf :: "incident \<Rightarrow> incident_update list" where
  "updatesOf inc = (case inc_incident_updates inc of None \<Rightarrow> [] | Some us \<Rightarrow> us)"

section \<open>Sample documents\<close>

text \<open>Concrete stores, payloads and live-system answers at which the theorems are instantiated.\<close>

definition sampleIncident :: "string \<Rightarrow> string \<Rightarrow> component list \<Rightarrow> incident" where
  "sampleIncident i s cs =
     \<lparr>inc_id = i, inc_name = ''Sample incident'', inc_status = s, inc_impact = ''minor'',
      inc_body = Some ''We are investigating'', inc_components = Some cs,
      inc_component_ids = [], inc_created_at = ''t0'', inc_updated_at = ''t0'',
      inc_incident_updates = Some [], inc_other = []\<rparr>"

text \<open>Two open incidents that claim different statuses for the component \<open>a\<close>.\<close>

definition conflictingFile :: "TestData option" where
  "conflictingFile = Some
     \<lparr>components = [stubComponent ''a'' ''operational''],
      incidents = [sampleIncident ''i1'' ''investigating'' [stubComponent ''a'' ''major_outage''],
                   sampleIncident ''i2'' ''identified'' [stubComponent ''a'' ''partial_outage'']],
      templates = []\<rparr>"

definition overlappingFile :: "TestData option" where
  "overlappingFile = Some
     \<lparr>components = [stubComponent ''a'' ''operational'', stubComponent ''b'' ''operational''],
      incidents = [sampleIncident ''i1'' ''investigating'' [stubComponent ''a'' ''major_outage''],
                   sampleIncident ''i2'' ''identified'' [stubComponent ''a'' ''partial_outage''],
                   sampleIncident ''i3'' ''monitoring'' [stubComponent ''b'' ''degraded_performance'']],
      templates = []\<rparr>"

text \<open>A resolved incident whose snapshot still lists a major outage for \<open>a\<close>.\<close>

definition resolvedFile :: "TestData option" where
  "resolvedFile = Some
     \<lparr>components = [stubComponent ''a'' ''major_outage'', stubComponent ''b'' ''operational''],
      incidents = [sampleIncident ''i1'' ''resolved'' [stubComponent ''a'' ''major_outage''],
                   sampleIncident ''i2'' ''monitoring'' [stubComponent ''b'' ''degraded_performance'']],
      templates = []\<rparr>"

definition oneComponentFile :: "TestData option" where
  "oneComponentFile = Some
     \<lparr>components = [stubComponent ''c1'' ''operational''], incidents = [], templates = []\<rparr>"

definition outagePayload :: create_body where
  "outagePayload =
     \<lparr>c_name = ''Outage'', c_status = ''investigating'', c_impact = None,
      c_body = Some ''We are investigating'',
      c_components = MapForm [(''c1'', ''major_outage'')], c_component_ids = None\<rparr>"

definition oneIncidentFile :: "TestData option" where
  "oneIncidentFile = Some
     \<lparr>components = [stubComponent ''c1'' ''operational'', stubComponent ''c2'' ''operational''],
      incidents = [sampleIncident ''i1'' ''investigating'' [stubComponent ''c1'' ''major_outage'']],
      templates = []\<rparr>"

definition emptyPatch :: patch_body where
  "emptyPatch =
     \<lparr>p_id = None, p_name = None, p_status = None, p_impact = None, p_body = None,
      p_component_ids = None, p_created_at = None, p_updated_at = None,
      p_incident_updates = None, p_components = NoComponents, p_incident_update = None,
      p_other = []\<rparr>"

text \<open>
  The store after the update \<^verbatim>\<open>{id: ""}\<close> of the incident \<open>i1\<close>: the spread has given
  the stored incident the empty id.
\<close>

definition emptyIdFile :: "TestData option" where
  "emptyIdFile =
     snd (PATCH_incidents ''t1'' ''u1'' (Some ''i1'') (emptyPatch\<lparr>p_id := Some []\<rparr>) oneIncidentFile)"

definition resolvingUpdate :: patch_body where
  "resolvingUpdate = emptyPatch
     \<lparr>p_incident_update := Some \<lparr>u_status = Some ''resolved'', u_body = None, u_display_at = None\<rparr>\<rparr>"

definition sampleEnv :: cron_env where
  "sampleEnv = \<lparr>demoModeEnabled = True, cronSecret = None, apiKey = Some ''key'', pageId = Some ''page''\<rparr>"

definition trackedFile :: "DemoTracker option" where
  "trackedFile = Some
     \<lparr>tr_incidents = [''gone'', ''busy''], tr_components = [''cmp''],
      tr_templates = [''done'', ''stuck''], lastCleanup = None\<rparr>"

definition liveDelete :: "string \<Rightarrow> response" where
  "liveDelete i =
     (if i = ''gone'' then Response 404 ''Not found''
      else if i = ''done'' then Response 200 []
      else Response 500 ''Internal Server Error'')"

section \<open>Facts about lists\<close>

lemma findIndex_None: "findIndex P xs = None \<longleftrightarrow> (\<forall>x \<in> set xs. \<not> P x)"
  by (induction xs) auto

lemma findIndex_Some:
  "findIndex P xs = Some i \<Longrightarrow> i < length xs \<and> P (xs ! i) \<and> (\<forall>j < i. \<not> P (xs ! j))"
proof (induction xs arbitrary: i)
  case Nil
  then show ?case by simp
next
  case (Cons x xs)
  show ?case
  proof (cases "P x")
    case True
    with Cons.prems show ?thesis by simp
  next
    case False
    with Cons.prems obtain k where k: "findIndex P xs = Some k" "i = Suc k" by auto
    from Cons.IH [OF k(1)] False k(2) show ?thesis
      by (auto simp: less_Suc_eq_0_disj)
  qed
qed

lemma find_findIndex:
  "find P xs = (case findIndex P xs of None \<Rightarrow> None | Some i \<Rightarrow> Some (xs ! i))"
  by (induction xs) (auto split: option.splits)

lemma find_update_same: "findIndex P xs = Some i \<Longrightarrow> P y \<Longrightarrow> find P (xs[i := y]) = Some y"
proof (induction xs arbitrary: i)
  case Nil
  then show ?case by simp
next
  case (Cons x xs)
  then show ?case by (cases i) (auto split: if_splits)
qed

lemma find_update_other:
  "i < length xs \<Longrightarrow> \<not> P (xs ! i) \<Longrightarrow> \<not> P y \<Longrightarrow> find P (xs[i := y]) = find P xs"
proof (induction xs arbitrary: i)
  case Nil
  then show ?case by simp
next
  case (Cons x xs)
  then show ?case by (cases i) auto
qed

lemma find_map_id:
  "(\<And>c. comp_id (f c) = comp_id c) \<Longrightarrow>
     find (\<lambda>c. comp_id c = k) (map f cs) = map_option f (find (\<lambda>c. comp_id c = k) cs)"
  by (induction cs) simp_all

lemma length_filter_same: "length (filter P xs) = length xs \<longleftrightarrow> (\<forall>x \<in> set xs. P x)"
proof (induction xs)
  case Nil
  show ?case by simp
next
  case (Cons x xs)
  have "length (filter P xs) \<le> length xs" by simp
  then have "length (filter P xs) \<noteq> Suc (length xs)" by arith
  with Cons show ?case by auto
qed

lemma filter_own_members:
  "filter (\<lambda>x. x \<in> set xs \<longrightarrow> \<not> P x) xs = filter (\<lambda>x. \<not> P x) xs"
  by (rule filter_cong) auto

section \<open>Properties of the Status Projection Engine\<close>

subsection \<open>What the passes leave alone\<close>

lemma sameFrame_refl: "sameFrame c c"
  by (simp add: sameFrame_def)

lemma sameFrame_trans: "sameFrame a b \<Longrightarrow> sameFrame b c \<Longrightarrow> sameFrame a c"
  by (simp add: sameFrame_def)

lemma frame_refl: "list_all2 sameFrame cs cs"
  by (simp add: list_all2_refl sameFrame_refl)

lemma frame_trans:
  "list_all2 sameFrame as bs \<Longrightarrow> list_all2 sameFrame bs cs \<Longrightarrow> list_all2 sameFrame as cs"
  by (auto simp: list_all2_conv_all_nth sameFrame_def)

lemma frame_update:
  "i < length cs \<Longrightarrow> list_all2 sameFrame cs (cs[i := (cs ! i)\<lparr>comp_status := s, comp_updated_at := u\<rparr>])"
  by (simp add: list_all2_conv_all_nth nth_list_update sameFrame_def)

lemma applySnapshot_frame: "list_all2 sameFrame (fst st) (fst (applySnapshot now ic st))"
  by (auto simp: applySnapshot_def frame_refl frame_update split: option.splits dest: findIndex_Some)

lemma fold_applySnapshot_frame:
  "list_all2 sameFrame (fst st) (fst (fold (applySnapshot now) ss st))"
proof (induction ss arbitrary: st)
  case Nil
  show ?case by (simp add: frame_refl)
next
  case (Cons s ss)
  show ?case
    using frame_trans [OF applySnapshot_frame Cons.IH] by simp
qed

lemma applyPass_flat:
  "applyPass now opens st = fold (applySnapshot now) (concat (map snapshots opens)) st"
  by (induction opens arbitrary: st) (simp_all add: applyPass_def applyIncident_def)

lemma resetPass_frame: "list_all2 sameFrame cs (fst (resetPass now affected cs))"
  by (simp add: resetPass_def list_all2_conv_all_nth sameFrame_def)

lemma applySnapshot_length: "length (fst (applySnapshot now ic st)) = length (fst st)"
  using applySnapshot_frame [of st now ic] by (simp add: list_all2_lengthD)

lemma applySnapshot_other:
  assumes "j < length (fst st)"
    and "claimsStatus ic \<Longrightarrow> comp_id (fst st ! j) \<noteq> comp_id ic"
  shows "fst (applySnapshot now ic st) ! j = fst st ! j"
proof (cases "claimsStatus ic")
  case False
  then show ?thesis by (simp add: applySnapshot_def)
next
  case True
  show ?thesis
  proof (cases "findIndex (\<lambda>c. comp_id c = comp_id ic) (fst st)")
    case None
    with True show ?thesis by (simp add: applySnapshot_def)
  next
    case (Some i)
    from findIndex_Some [OF Some] assms(2) [OF True] have "i \<noteq> j" by auto
    with True Some show ?thesis by (simp add: applySnapshot_def)
  qed
qed

lemma fold_applySnapshot_other:
  assumes "j < length (fst st)"
    and "\<forall>s \<in> set ss. claimsStatus s \<longrightarrow> comp_id s \<noteq> comp_id (fst st ! j)"
  shows "fst (fold (applySnapshot now) ss st) ! j = fst st ! j"
  using assms
proof (induction ss arbitrary: st)
  case Nil
  show ?case by simp
next
  case (Cons s ss)
  have one: "fst (applySnapshot now s st) ! j = fst st ! j"
    using Cons.prems by (intro applySnapshot_other) auto
  have "fst (fold (applySnapshot now) ss (applySnapshot now s st)) ! j
          = fst (applySnapshot now s st) ! j"
    using Cons.prems one by (intro Cons.IH) (simp_all add: applySnapshot_length)
  with one show ?case by simp
qed

subsection \<open>The status found for an id after the apply pass\<close>

lemma applySnapshot_statusOf:
  "statusOf k (fst (applySnapshot now ic st)) =
     (if claimsStatus ic \<and> comp_id ic = k \<and> statusOf k (fst st) \<noteq> None
      then Some (comp_status ic) else statusOf k (fst st))"
proof (cases "claimsStatus ic")
  case False
  then show ?thesis by (simp add: applySnapshot_def)
next
  case True
  show ?thesis
  proof (cases "findIndex (\<lambda>c. comp_id c = comp_id ic) (fst st)")
    case None
    with True show ?thesis
      by (auto simp: applySnapshot_def statusOf_def find_findIndex)
  next
    case (Some i)
    note fi = findIndex_Some [OF Some]
    show ?thesis
    proof (cases "comp_id ic = k")
      case same: True
      from Some same have "find (\<lambda>c. comp_id c = k) (fst st) = Some (fst st ! i)"
        by (simp add: find_findIndex)
      moreover have "find (\<lambda>c. comp_id c = k) ((fst st)[i := y]) = Some y" if "comp_id y = k" for y
        using find_update_same [OF Some, of y] that same by simp
      moreover have "comp_id (fst st ! i) = k"
        using fi same by simp
      ultimately show ?thesis
        using True Some same by (simp add: applySnapshot_def statusOf_def)
    next
      case diff: False
      have "find (\<lambda>c. comp_id c = k) ((fst st)[i := y]) = find (\<lambda>c. comp_id c = k) (fst st)"
        if "comp_id y = comp_id ic" for y
        using fi diff that by (intro find_update_other) auto
      moreover have "comp_id (fst st ! i) = comp_id ic"
        using fi by simp
      ultimately show ?thesis
        using True Some diff by (simp add: applySnapshot_def statusOf_def)
    qed
  qed
qed

lemma fold_applySnapshot_statusOf:
  "statusOf k (fst (fold (applySnapshot now) ss st)) =
     (let cl = filter (\<lambda>s. claimsStatus s \<and> comp_id s = k) ss
      in if cl = [] \<or> statusOf k (fst st) = None then statusOf k (fst st)
         else Some (comp_status (last cl)))"
proof (induction ss rule: rev_induct)
  case Nil
  show ?case by simp
next
  case (snoc s ss)
  show ?case
    by (simp add: applySnapshot_statusOf snoc.IH Let_def)
qed

subsection \<open>The change flags and the write\<close>

lemma applySnapshot_flag_mono: "snd st \<Longrightarrow> snd (applySnapshot now ic st)"
  by (simp add: applySnapshot_def split: option.splits)

lemma applySnapshot_unflagged: "\<not> snd (applySnapshot now ic st) \<Longrightarrow> applySnapshot now ic st = st"
  by (simp add: applySnapshot_def split: option.splits if_splits)

lemma fold_applySnapshot_flag_mono: "snd st \<Longrightarrow> snd (fold (applySnapshot now) ss st)"
  by (induction ss arbitrary: st) (simp_all add: applySnapshot_flag_mono)

lemma fold_applySnapshot_unflagged:
  "\<not> snd (fold (applySnapshot now) ss st) \<Longrightarrow> fold (applySnapshot now) ss st = st"
proof (induction ss arbitrary: st)
  case Nil
  show ?case by simp
next
  case (Cons s ss)
  from Cons.prems have "\<not> snd (applySnapshot now s st)"
    using fold_applySnapshot_flag_mono [of "applySnapshot now s st" now ss] by auto
  then have "applySnapshot now s st = st" by (rule applySnapshot_unflagged)
  with Cons show ?case by simp
qed

lemma resetPass_unflagged: "\<not> snd (resetPass now affected cs) \<Longrightarrow> fst (resetPass now affected cs) = cs"
  by (simp add: resetPass_def list_ex_iff map_idI)

lemma syncComponents_answered:
  "answered (syncComponents now file) = fst (projected now (getTestData file))"
  by (simp add: syncComponents_def projected_def Let_def split: prod.splits)

lemma syncComponents_wrote:
  "wrote (syncComponents now file) \<longleftrightarrow>
     snd (projected now (getTestData file)) \<or>
     snd (resetPass now (componentIdsAffectedByOpenIncidents (openIncidents (getTestData file)))
            (components (getTestData file)))"
  by (simp add: syncComponents_def projected_def Let_def split: prod.splits)

lemma syncComponents_stored:
  "getTestData (stored (syncComponents now file)) =
     (getTestData file)\<lparr>components := answered (syncComponents now file)\<rparr>"
proof (cases "wrote (syncComponents now file)")
  case True
  then have "stored (syncComponents now file) =
      Some ((getTestData file)\<lparr>components := answered (syncComponents now file)\<rparr>)"
    by (auto simp: syncComponents_def Let_def saveTestData_def split: prod.splits)
  then show ?thesis by (simp add: getTestData_def)
next
  case False
  then have a: "\<not> snd (projected now (getTestData file))"
    and b: "\<not> snd (resetPass now (componentIdsAffectedByOpenIncidents (openIncidents (getTestData file)))
            (components (getTestData file)))"
    by (simp_all add: syncComponents_wrote)
  from a have "projected now (getTestData file) =
      (fst (resetPass now (componentIdsAffectedByOpenIncidents (openIncidents (getTestData file)))
            (components (getTestData file))), False)"
    unfolding projected_def applyPass_flat by (rule fold_applySnapshot_unflagged)
  then have "fst (projected now (getTestData file)) = components (getTestData file)"
    using resetPass_unflagged [OF b] by simp
  moreover from False have "stored (syncComponents now file) = file"
    by (simp add: syncComponents_def Let_def split: prod.splits if_splits)
  ultimately show ?thesis by (simp add: syncComponents_answered)
qed

lemma projected_frame: "list_all2 sameFrame (components testData) (fst (projected now testData))"
proof -
  let ?cs1 = "fst (resetPass now (componentIdsAffectedByOpenIncidents (openIncidents testData))
                     (components testData))"
  have "list_all2 sameFrame ?cs1 (fst (projected now testData))"
    unfolding projected_def applyPass_flat
    using fold_applySnapshot_frame [of "(?cs1, False)"] by simp
  with resetPass_frame show ?thesis by (rule frame_trans)
qed

lemma affected_iff:
  "k \<in> componentIdsAffectedByOpenIncidents (openIncidents testData) \<longleftrightarrow>
     (\<exists>inc \<in> set (incidents testData). isOpen inc \<and>
        (\<exists>s \<in> set (snapshots inc). claimsStatus s \<and> comp_id s = k))"
  by (auto simp: componentIdsAffectedByOpenIncidents_def openIncidents_def)

lemma affected_mem:
  "s \<in> set (concat (map snapshots opens)) \<Longrightarrow> claimsStatus s \<Longrightarrow>
     comp_id s \<in> componentIdsAffectedByOpenIncidents opens"
  unfolding componentIdsAffectedByOpenIncidents_def set_map set_filter
  by (rule imageI) simp

lemma resetPass_nth:
  "i < length cs \<Longrightarrow> comp_id (cs ! i) \<notin> affected \<Longrightarrow>
     comp_status (fst (resetPass now affected cs) ! i) = ''operational'' \<and>
     comp_id (fst (resetPass now affected cs) ! i) = comp_id (cs ! i)"
  by (simp add: resetPass_def needsReset_def)

lemma projected_unaffected:
  assumes "i < length (components testData)"
    and "comp_id (components testData ! i) \<notin> componentIdsAffectedByOpenIncidents (openIncidents testData)"
  shows "comp_status (fst (projected now testData) ! i) = ''operational''"
proof -
  let ?aff = "componentIdsAffectedByOpenIncidents (openIncidents testData)"
  let ?cs1 = "fst (resetPass now ?aff (components testData))"
  have len: "i < length ?cs1" using assms(1) by (simp add: resetPass_def)
  note r = resetPass_nth [OF assms, of now]
  have "fst (fold (applySnapshot now) (concat (map snapshots (openIncidents testData))) (?cs1, False)) ! i
          = ?cs1 ! i"
  proof (rule fold_applySnapshot_other [where st = "(?cs1, False)", simplified])
    show "i < length ?cs1" by (rule len)
    have "\<forall>s\<in>set (concat (map snapshots (openIncidents testData))).
            claimsStatus s \<longrightarrow> comp_id s \<noteq> comp_id (components testData ! i)"
    proof (intro ballI impI notI)
      fix s
      assume s: "s \<in> set (concat (map snapshots (openIncidents testData)))" "claimsStatus s"
        and eq: "comp_id s = comp_id (components testData ! i)"
      from affected_mem [OF s] eq assms(2) show False by simp
    qed
    with r show "\<forall>s\<in>set (concat (map snapshots (openIncidents testData))). claimsStatus s \<longrightarrow> comp_id s \<noteq> comp_id (?cs1 ! i)"
      by simp
  qed
  with r show ?thesis by (simp add: projected_def applyPass_flat)
qed

lemma resetPass_statusOf_None:
  "statusOf k (fst (resetPass now affected cs)) = None \<longleftrightarrow> statusOf k cs = None"
proof -
  let ?f = "\<lambda>c. if needsReset affected c
               then c\<lparr>comp_status := ''operational'', comp_updated_at := Some now\<rparr> else c"
  have "find (\<lambda>c. comp_id c = k) (map ?f cs) = map_option ?f (find (\<lambda>c. comp_id c = k) cs)"
    by (rule find_map_id) simp
  then show ?thesis by (simp add: statusOf_def resetPass_def)
qed

lemma no_later_claims:
  "\<forall>later \<in> set post. isOpen later \<longrightarrow> claimsFor k later = [] \<Longrightarrow>
     filter (\<lambda>s. claimsStatus s \<and> comp_id s = k) (concat (map snapshots (filter isOpen post))) = []"
  by (induction post) (simp_all add: claimsFor_def)

lemma projected_last_claim:
  assumes "incidents testData = pre @ inc # post"
    and "isOpen inc"
    and "claimsFor k inc \<noteq> []"
    and "\<forall>later \<in> set post. isOpen later \<longrightarrow> claimsFor k later = []"
    and "find (\<lambda>c. comp_id c = k) (components testData) = Some c"
  shows "statusOf k (fst (projected now testData)) = Some (comp_status (last (claimsFor k inc)))"
proof -
  let ?P = "\<lambda>s. claimsStatus s \<and> comp_id s = k"
  let ?cs1 = "fst (resetPass now (componentIdsAffectedByOpenIncidents (openIncidents testData))
                     (components testData))"
  let ?flat = "concat (map snapshots (openIncidents testData))"
  have "filter ?P ?flat =
          filter ?P (concat (map snapshots (filter isOpen pre))) @ claimsFor k inc"
    using assms(1,2) no_later_claims [OF assms(4)]
    by (simp add: openIncidents_def claimsFor_def)
  with assms(3) have cl: "filter ?P ?flat \<noteq> []"
    and lst: "last (filter ?P ?flat) = last (claimsFor k inc)"
    by simp_all
  from assms(5) have "statusOf k (components testData) \<noteq> None"
    by (simp add: statusOf_def)
  then have present: "statusOf k ?cs1 \<noteq> None"
    by (simp add: resetPass_statusOf_None)
  have "statusOf k (fst (projected now testData)) =
          statusOf k (fst (fold (applySnapshot now) ?flat (?cs1, False)))"
    by (simp add: projected_def applyPass_flat)
  also have "\<dots> = Some (comp_status (last (filter ?P ?flat)))"
    using cl present by (simp add: fold_applySnapshot_statusOf Let_def)
  finally show ?thesis by (simp add: lst)
qed

subsection \<open>Reset invariant\<close>

text \<open>
  Claim C1. Take a stored component, at any position of the component list, such that no
  open incident holds a snapshot with its id that claims a status (a snapshot claims a
  status when its status is neither empty nor \<^verbatim>\<open>operational\<close>). After the read of the
  components resource that component is \<^verbatim>\<open>operational\<close>, in the answer and in the backing
  file, and it is still the component with the same id. The hypothesis speaks of open
  incidents only: what an incident with status \<^verbatim>\<open>resolved\<close> or \<^verbatim>\<open>postmortem\<close> lists in
  its components array never keeps a component from being reset.
\<close>

theorem reset_invariant:
  assumes "i < length (components (getTestData file))"
    and "\<forall>inc \<in> set (incidents (getTestData file)). isOpen inc \<longrightarrow>
           (\<forall>s \<in> set (snapshots inc).
              comp_id s = comp_id (components (getTestData file) ! i) \<longrightarrow> \<not> claimsStatus s)"
  shows "comp_status (answered (syncComponents now file) ! i) = ''operational'' \<and>
         comp_status (components (getTestData (stored (syncComponents now file))) ! i) = ''operational'' \<and>
         comp_id (answered (syncComponents now file) ! i) = comp_id (components (getTestData file) ! i)"
proof -
  from assms(2) have "comp_id (components (getTestData file) ! i)
      \<notin> componentIdsAffectedByOpenIncidents (openIncidents (getTestData file))"
    by (auto simp: affected_iff)
  from projected_unaffected [OF assms(1) this, of now]
  have "comp_status (answered (syncComponents now file) ! i) = ''operational''"
    by (simp add: syncComponents_answered)
  moreover have "sameFrame (components (getTestData file) ! i) (answered (syncComponents now file) ! i)"
    using projected_frame [of "getTestData file" now] assms(1)
    by (simp add: syncComponents_answered list_all2_conv_all_nth)
  ultimately show ?thesis
    by (simp add: syncComponents_stored sameFrame_def)
qed

text \<open>
  At \<open>resolvedFile\<close> the component \<open>a\<close> is stored with a major outage and only a
  resolved incident lists it: one read resets it.
\<close>

theorem reset_invariant_witness:
  "comp_id (components (getTestData resolvedFile) ! 0) = ''a'' \<and>
   comp_status (components (getTestData resolvedFile) ! 0) = ''major_outage'' \<and>
   comp_status (answered (syncComponents ''t1'' resolvedFile) ! 0) = ''operational'' \<and>
   comp_status (components (getTestData (stored (syncComponents ''t1'' resolvedFile))) ! 0)
     = ''operational''"
proof -
  have h1: "0 < length (components (getTestData resolvedFile))"
    by code_simp
  have h2: "\<forall>inc \<in> set (incidents (getTestData resolvedFile)). isOpen inc \<longrightarrow>
           (\<forall>s \<in> set (snapshots inc).
              comp_id s = comp_id (components (getTestData resolvedFile) ! 0) \<longrightarrow> \<not> claimsStatus s)"
    by code_simp
  have before: "comp_id (components (getTestData resolvedFile) ! 0) = ''a'' \<and>
      comp_status (components (getTestData resolvedFile) ! 0) = ''major_outage''"
    by code_simp
  from reset_invariant [OF h1 h2, of "''t1''"] before show ?thesis
    by simp
qed

subsection \<open>Apply invariant and tie-break\<close>

text \<open>
  Claim C2. Let \<open>inc\<close> be the last open incident, in the stored order of the incident
  list, that claims a status for the component id \<open>k\<close>, and let a component with id \<open>k\<close>
  exist in the store. After the read of the components resource the store's component
  \<open>k\<close> carries the status of the last snapshot of \<open>inc\<close> for \<open>k\<close>, whatever the
  incidents before \<open>inc\<close> claim for it. So a claim that no later open incident contradicts
  is carried as it is, and of two open incidents that disagree the one iterated last wins.
\<close>

theorem apply_invariant:
  assumes "incidents (getTestData file) = pre @ inc # post"
    and "isOpen inc"
    and "claimsFor k inc \<noteq> []"
    and "\<forall>later \<in> set post. isOpen later \<longrightarrow> claimsFor k later = []"
    and "find (\<lambda>c. comp_id c = k) (components (getTestData file)) = Some c"
  shows "statusOf k (answered (syncComponents now file)) =
           Some (comp_status (last (claimsFor k inc))) \<and>
         statusOf k (components (getTestData (stored (syncComponents now file)))) =
           Some (comp_status (last (claimsFor k inc)))"
  using projected_last_claim [OF assms, of now]
  by (simp add: syncComponents_answered syncComponents_stored)

text \<open>
  At \<open>overlappingFile\<close> the incidents \<open>i1\<close> and \<open>i2\<close> disagree about \<open>a\<close> and the
  later incident \<open>i3\<close> is about \<open>b\<close>: the claim of \<open>i2\<close> wins.
\<close>

theorem apply_invariant_witness:
  "statusOf ''a'' (components (getTestData overlappingFile)) = Some ''operational'' \<and>
   statusOf ''a'' (answered (syncComponents ''t1'' overlappingFile)) = Some ''partial_outage'' \<and>
   statusOf ''a'' (components (getTestData (stored (syncComponents ''t1'' overlappingFile))))
     = Some ''partial_outage''"
proof -
  let ?i1 = "sampleIncident ''i1'' ''investigating'' [stubComponent ''a'' ''major_outage'']"
  let ?i2 = "sampleIncident ''i2'' ''identified'' [stubComponent ''a'' ''partial_outage'']"
  let ?i3 = "sampleIncident ''i3'' ''monitoring'' [stubComponent ''b'' ''degraded_performance'']"
  have h1: "incidents (getTestData overlappingFile) = [?i1] @ ?i2 # [?i3]"
    by (simp add: overlappingFile_def getTestData_def)
  have h2: "isOpen ?i2"
    by code_simp
  have cl: "claimsFor ''a'' ?i2 = [stubComponent ''a'' ''partial_outage'']"
    by code_simp
  then have h3: "claimsFor ''a'' ?i2 \<noteq> []"
    by simp
  have h4: "\<forall>later \<in> set [?i3]. isOpen later \<longrightarrow> claimsFor ''a'' later = []"
    by code_simp
  have h5: "find (\<lambda>c. comp_id c = ''a'') (components (getTestData overlappingFile))
              = Some (stubComponent ''a'' ''operational'')"
    by code_simp
  have before: "statusOf ''a'' (components (getTestData overlappingFile)) = Some ''operational''"
    by code_simp
  have st: "comp_status (stubComponent ''a'' ''partial_outage'') = ''partial_outage''"
    by (simp add: stubComponent_def)
  from apply_invariant [OF h1 h2 h3 h4 h5, of "''t1''"] before show ?thesis
    by (simp add: cl st)
qed

subsection \<open>Frame property\<close>

text \<open>
  Claim C7. The read of the components resource keeps the list of component ids as it
  is, with its length and its order, so no component is added, removed or moved and an id
  that only an incident mentions gets no component. Name and every other field apart from
  \<^verbatim>\<open>status\<close> and \<^verbatim>\<open>updated_at\<close> are unchanged at every position, the file holds the
  answered list, and incidents and templates are untouched.
\<close>

theorem projection_frame:
  "map comp_id (answered (syncComponents now file)) = map comp_id (components (getTestData file)) \<and>
   map comp_name (answered (syncComponents now file)) = map comp_name (components (getTestData file)) \<and>
   map comp_other (answered (syncComponents now file)) = map comp_other (components (getTestData file)) \<and>
   components (getTestData (stored (syncComponents now file))) = answered (syncComponents now file) \<and>
   incidents (getTestData (stored (syncComponents now file))) = incidents (getTestData file) \<and>
   templates (getTestData (stored (syncComponents now file))) = templates (getTestData file)"
proof -
  have fr: "list_all2 sameFrame (components (getTestData file)) (answered (syncComponents now file))"
    using projected_frame [of "getTestData file" now] by (simp add: syncComponents_answered)
  then have len: "length (answered (syncComponents now file)) = length (components (getTestData file))"
    by (simp add: list_all2_lengthD)
  from fr have "\<forall>i < length (components (getTestData file)).
      sameFrame (components (getTestData file) ! i) (answered (syncComponents now file) ! i)"
    by (simp add: list_all2_conv_all_nth)
  with len have "map comp_id (answered (syncComponents now file)) = map comp_id (components (getTestData file))"
    and "map comp_name (answered (syncComponents now file)) = map comp_name (components (getTestData file))"
    and "map comp_other (answered (syncComponents now file)) = map comp_other (components (getTestData file))"
    by (simp_all add: list_eq_iff_nth_eq sameFrame_def)
  then show ?thesis by (simp add: syncComponents_stored)
qed

subsection \<open>Idempotence\<close>

text \<open>
  When no two claiming snapshots of open incidents disagree about a component, a second
  read right after a first one changes nothing, writes nothing and answers the same list.
\<close>

lemma statusOf_findIndex:
  "statusOf k cs = (case findIndex (\<lambda>c. comp_id c = k) cs of
                      None \<Rightarrow> None | Some i \<Rightarrow> Some (comp_status (cs ! i)))"
  by (simp add: statusOf_def find_findIndex split: option.splits)

lemma applySnapshot_settled:
  assumes "claimsStatus s \<Longrightarrow>
             statusOf (comp_id s) cs = None \<or> statusOf (comp_id s) cs = Some (comp_status s)"
  shows "applySnapshot now s (cs, flag) = (cs, flag)"
  using assms
  by (auto simp: applySnapshot_def statusOf_findIndex split: option.splits)

lemma fold_applySnapshot_settled:
  assumes "\<forall>s \<in> set ss. claimsStatus s \<longrightarrow>
             statusOf (comp_id s) cs = None \<or> statusOf (comp_id s) cs = Some (comp_status s)"
  shows "fold (applySnapshot now) ss (cs, flag) = (cs, flag)"
  using assms by (induction ss) (simp_all add: applySnapshot_settled)

lemma resetPass_settled:
  assumes "\<forall>c \<in> set cs. comp_id c \<notin> affected \<longrightarrow> comp_status c = ''operational''"
  shows "resetPass now affected cs = (cs, False)"
proof -
  from assms have no: "\<forall>c \<in> set cs. \<not> needsReset affected c"
    by (auto simp: needsReset_def)
  then have "map (\<lambda>c. if needsReset affected c
               then c\<lparr>comp_status := ''operational'', comp_updated_at := Some now\<rparr>
               else c) cs = cs"
    by (intro map_idI) simp
  with no show ?thesis by (simp add: resetPass_def list_ex_iff)
qed

lemma projected_settles_unaffected:
  assumes "c \<in> set (fst (projected now testData))"
    and "comp_id c \<notin> componentIdsAffectedByOpenIncidents (openIncidents testData)"
  shows "comp_status c = ''operational''"
proof -
  from assms(1) obtain i where i: "i < length (fst (projected now testData))"
    and c: "c = fst (projected now testData) ! i"
    by (auto simp: in_set_conv_nth)
  note fr = projected_frame [of testData now]
  from fr i have len: "i < length (components testData)"
    by (simp add: list_all2_lengthD)
  with fr have "sameFrame (components testData ! i) (fst (projected now testData) ! i)"
    by (simp add: list_all2_conv_all_nth)
  with assms(2) c have "comp_id (components testData ! i)
      \<notin> componentIdsAffectedByOpenIncidents (openIncidents testData)"
    by (simp add: sameFrame_def)
  from projected_unaffected [OF len this, of now] c show ?thesis by simp
qed

lemma projected_settles_claims:
  assumes agree: "\<forall>s \<in> set (concat (map snapshots (openIncidents testData))).
             \<forall>s' \<in> set (concat (map snapshots (openIncidents testData))).
               claimsStatus s \<and> claimsStatus s' \<and> comp_id s = comp_id s'
                 \<longrightarrow> comp_status s = comp_status s'"
    and s: "s \<in> set (concat (map snapshots (openIncidents testData)))" "claimsStatus s"
  shows "statusOf (comp_id s) (fst (projected now testData)) = None \<or>
         statusOf (comp_id s) (fst (projected now testData)) = Some (comp_status s)"
proof -
  let ?flat = "concat (map snapshots (openIncidents testData))"
  let ?cl = "filter (\<lambda>x. claimsStatus x \<and> comp_id x = comp_id s) ?flat"
  let ?cs1 = "fst (resetPass now (componentIdsAffectedByOpenIncidents (openIncidents testData))
                     (components testData))"
  from s have ne: "?cl \<noteq> []"
    by (auto simp: filter_empty_conv)
  then have "last ?cl \<in> set ?cl" by (rule last_in_set)
  then have "last ?cl \<in> set ?flat" "claimsStatus (last ?cl)" "comp_id (last ?cl) = comp_id s"
    by simp_all
  with agree s have same: "comp_status (last ?cl) = comp_status s"
    by blast
  have "statusOf (comp_id s) (fst (projected now testData)) =
          statusOf (comp_id s) (fst (fold (applySnapshot now) ?flat (?cs1, False)))"
    by (simp add: projected_def applyPass_flat)
  also have "\<dots> = (if statusOf (comp_id s) ?cs1 = None then None else Some (comp_status s))"
    using ne by (simp add: fold_applySnapshot_statusOf Let_def same)
  finally show ?thesis by simp
qed

lemma sync_idempotent_without_conflict:
  assumes "\<forall>s \<in> set (concat (map snapshots (openIncidents (getTestData fl)))).
             \<forall>s' \<in> set (concat (map snapshots (openIncidents (getTestData fl)))).
               claimsStatus s \<and> claimsStatus s' \<and> comp_id s = comp_id s'
                 \<longrightarrow> comp_status s = comp_status s'"
  shows "syncComponents now' (stored (syncComponents now fl)) =
           \<lparr>answered = answered (syncComponents now fl),
            stored = stored (syncComponents now fl), wrote = False\<rparr>"
proof -
  let ?td = "getTestData fl"
  let ?cs = "answered (syncComponents now fl)"
  let ?td' = "getTestData (stored (syncComponents now fl))"
  let ?aff = "componentIdsAffectedByOpenIncidents (openIncidents ?td)"
  have td': "?td' = ?td\<lparr>components := ?cs\<rparr>"
    by (rule syncComponents_stored)
  then have opens: "openIncidents ?td' = openIncidents ?td" and comps: "components ?td' = ?cs"
    by (simp_all add: openIncidents_def)
  have cs: "?cs = fst (projected now ?td)"
    by (rule syncComponents_answered)
  have reset: "resetPass now' ?aff ?cs = (?cs, False)"
  proof (rule resetPass_settled, intro ballI impI)
    fix c
    assume "c \<in> set ?cs" and "comp_id c \<notin> ?aff"
    then show "comp_status c = ''operational''"
      unfolding cs by (rule projected_settles_unaffected)
  qed
  have "fold (applySnapshot now') (concat (map snapshots (openIncidents ?td))) (?cs, False)
          = (?cs, False)"
  proof (rule fold_applySnapshot_settled, intro ballI impI)
    fix s
    assume "s \<in> set (concat (map snapshots (openIncidents ?td)))" and "claimsStatus s"
    with assms show "statusOf (comp_id s) ?cs = None \<or>
        statusOf (comp_id s) ?cs = Some (comp_status s)"
      unfolding cs by (rule projected_settles_claims)
  qed
  then have settled: "applyPass now' (openIncidents ?td) (?cs, False) = (?cs, False)"
    by (simp add: applyPass_flat)
  show ?thesis
    unfolding syncComponents_def [of now' "stored (syncComponents now fl)"]
    by (simp add: Let_def opens comps reset settled)
qed

text \<open>
  Claim C3. The claim asks that a second read, right after a first one, detects no change
  and writes nothing. At \<open>conflictingFile\<close>, where two open incidents claim different
  statuses for the component \<open>a\<close>, the second read finds \<open>a\<close> with the status of the
  second incident, overwrites it with the status of the first, then overwrites it back:
  \<^verbatim>\<open>componentsUpdated\<close> is set, the file is written again and \<^verbatim>\<open>updated_at\<close> of \<open>a\<close>
  moves from the time of the first read to the time of the second. Only such a conflict
  makes the second read write: without one it is the no-op of the lemma above.
\<close>

theorem second_read_writes_again:
  "wrote (syncComponents ''t1'' conflictingFile) \<and>
   wrote (syncComponents ''t2'' (stored (syncComponents ''t1'' conflictingFile))) \<and>
   map comp_updated_at (answered (syncComponents ''t1'' conflictingFile)) = [Some ''t1''] \<and>
   map comp_updated_at
     (answered (syncComponents ''t2'' (stored (syncComponents ''t1'' conflictingFile))))
     = [Some ''t2'']"
  by code_simp

section \<open>Properties of the Incident Lifecycle Manager\<close>

lemma POST_incidents_components:
  "components (getTestData (snd (POST_incidents now incidentId updateId body fl)))
     = components (getTestData fl)"
  by (simp add: POST_incidents_def Let_def saveTestData_def getTestData_def split: prod.splits)

lemma PATCH_incidents_found:
  assumes "i \<noteq> []"
    and "findIndex (\<lambda>item. inc_id item = i) (incidents (getTestData fl)) = Some index"
  shows "PATCH_incidents now updateId (Some i) body fl =
     (let incident = incidents (getTestData fl) ! index;
          res = (case p_incident_update body of
                     Some upd \<Rightarrow> (addUpdate now updateId upd body incident, fl)
                   | None \<Rightarrow> replaceFields now body incident fl)
      in (Inr (fst res),
          Some ((getTestData fl)\<lparr>incidents := (incidents (getTestData fl))[index := fst res]\<rparr>)))"
  using assms
  by (simp add: PATCH_incidents_def Let_def saveTestData_def split: prod.splits option.splits)

lemma normalizeComponents_length: "length (normalizeComponents entries cs) = length entries"
  by (simp add: normalizeComponents_def)

subsection \<open>Create\<close>

text \<open>
  Claim C4. Creating an incident with the components map \<^verbatim>\<open>{"c1": "major_outage"}\<close>
  on a store whose component \<open>c1\<close> is operational: the stored incident gets exactly one
  snapshot, with id \<open>c1\<close> and status \<^verbatim>\<open>major_outage\<close>, as the claim says. The claim also
  says that the stored component \<open>c1\<close> then has status \<^verbatim>\<open>major_outage\<close>. The handler
  does write that status, into the second copy of the document it reads, and saves that
  copy; but it ends by saving the first copy, read before the update, with the new
  incident added, and this last write puts the old components back. When the create
  operation completes the stored component \<open>c1\<close> is still operational.
\<close>

theorem create_loses_component_update:
  "statusOf ''c1'' (components (getTestData oneComponentFile)) = Some ''operational'' \<and>
   map (map comp_id \<circ> snapshots) (incidents (getTestData
       (snd (POST_incidents ''t1'' ''i1'' ''u1'' outagePayload oneComponentFile))))
     = [[''c1'']] \<and>
   map (map comp_status \<circ> snapshots) (incidents (getTestData
       (snd (POST_incidents ''t1'' ''i1'' ''u1'' outagePayload oneComponentFile))))
     = [[''major_outage'']] \<and>
   statusOf ''c1'' (components (getTestData
       (snd (POST_incidents ''t1'' ''i1'' ''u1'' outagePayload oneComponentFile))))
     = Some ''operational''"
  by code_simp

subsection \<open>Add-update mode\<close>

text \<open>
  Claim C5 as it is stated fails. On an incident with status \<^verbatim>\<open>investigating\<close> and a
  body, the payload \<^verbatim>\<open>{incident_update: {status: "resolved"}}\<close> appends an update with
  status \<^verbatim>\<open>resolved\<close>, but the incident's top-level status stays \<^verbatim>\<open>investigating\<close>:
  it is taken from the payload's top-level \<^verbatim>\<open>status\<close>, which is absent here, not from
  the new update. And the new update has no body: an omitted body defaults to the
  payload's top-level \<^verbatim>\<open>body\<close>, not to the incident's current body.
\<close>

theorem add_update_counterexample:
  "map inc_status (incidents (getTestData oneIncidentFile)) = [''investigating''] \<and>
   map inc_body (incidents (getTestData oneIncidentFile)) = [Some ''We are investigating''] \<and>
   map inc_status (incidents (getTestData
       (snd (PATCH_incidents ''t1'' ''u1'' (Some ''i1'') resolvingUpdate oneIncidentFile))))
     = [''investigating''] \<and>
   map (map upd_status \<circ> updatesOf) (incidents (getTestData
       (snd (PATCH_incidents ''t1'' ''u1'' (Some ''i1'') resolvingUpdate oneIncidentFile))))
     = [[''resolved'']] \<and>
   map (map upd_body \<circ> updatesOf) (incidents (getTestData
       (snd (PATCH_incidents ''t1'' ''u1'' (Some ''i1'') resolvingUpdate oneIncidentFile))))
     = [[None]]"
  by code_simp

text \<open>
  Claim C5, as amended. For an incident found under a non-empty id, a payload that carries
  an \<^verbatim>\<open>incident_update\<close> object appends one update to the incident's log. Its status is
  the status of the \<^verbatim>\<open>incident_update\<close>, or the incident's current status when that is
  omitted or empty; its body is the body of the \<^verbatim>\<open>incident_update\<close>, or the payload's
  top-level \<^verbatim>\<open>body\<close> when that is omitted or empty; its \<^verbatim>\<open>display_at\<close> is the one
  given, or now. The incident's top-level status becomes the payload's top-level
  \<^verbatim>\<open>status\<close>, and stays as it was when the payload has none.
\<close>

theorem add_update_mode:
  assumes "i \<noteq> []"
    and "findIndex (\<lambda>item. inc_id item = i) (incidents (getTestData fl)) = Some index"
    and "p_incident_update body = Some upd"
  shows "\<exists>incident'.
     fst (PATCH_incidents now updateId (Some i) body fl) = Inr incident' \<and>
     incidents (getTestData (snd (PATCH_incidents now updateId (Some i) body fl)))
       = (incidents (getTestData fl))[index := incident'] \<and>
     updatesOf incident' = updatesOf (incidents (getTestData fl) ! index) @
        [\<lparr>upd_id = updateId,
          upd_status = jsOr (u_status upd) (inc_status (incidents (getTestData fl) ! index)),
          upd_body = jsOrOpt (u_body upd) (p_body body),
          upd_created_at = now,
          upd_updated_at = now,
          upd_display_at = jsOr (u_display_at upd) now\<rparr>] \<and>
     inc_status incident' = jsOr (p_status body) (inc_status (incidents (getTestData fl) ! index))"
  using assms(3)
  by (simp add: PATCH_incidents_found [OF assms(1,2)] Let_def addUpdate_def updatesOf_def getTestData_def)

theorem add_update_mode_witness:
  "findIndex (\<lambda>item. inc_id item = ''i1'') (incidents (getTestData oneIncidentFile)) = Some 0 \<and>
   p_incident_update resolvingUpdate
     = Some \<lparr>u_status = Some ''resolved'', u_body = None, u_display_at = None\<rparr> \<and>
   (\<exists>incident'.
      fst (PATCH_incidents ''t1'' ''u1'' (Some ''i1'') resolvingUpdate oneIncidentFile) = Inr incident' \<and>
      updatesOf incident' =
        [\<lparr>upd_id = ''u1'', upd_status = ''resolved'', upd_body = None, upd_created_at = ''t1'',
          upd_updated_at = ''t1'', upd_display_at = ''t1''\<rparr>] \<and>
      inc_status incident' = ''investigating'')"
proof -
  have h1: "''i1'' \<noteq> []" by simp
  have h2: "findIndex (\<lambda>item. inc_id item = ''i1'') (incidents (getTestData oneIncidentFile)) = Some 0"
    by code_simp
  have h3: "p_incident_update resolvingUpdate
     = Some \<lparr>u_status = Some ''resolved'', u_body = None, u_display_at = None\<rparr>"
    by code_simp
  have old: "updatesOf (incidents (getTestData oneIncidentFile) ! 0) = []"
    "inc_status (incidents (getTestData oneIncidentFile) ! 0) = ''investigating''"
    "p_body resolvingUpdate = None" "p_status resolvingUpdate = None"
    by code_simp+
  from add_update_mode [OF h1 h2 h3, of "''t1''" "''u1''"]
  have "\<exists>incident'.
      fst (PATCH_incidents ''t1'' ''u1'' (Some ''i1'') resolvingUpdate oneIncidentFile) = Inr incident' \<and>
      updatesOf incident' =
        [\<lparr>upd_id = ''u1'', upd_status = ''resolved'', upd_body = None, upd_created_at = ''t1'',
          upd_updated_at = ''t1'', upd_display_at = ''t1''\<rparr>] \<and>
      inc_status incident' = ''investigating''"
    by (simp add: old jsOr_def jsOrOpt_def) blast
  with h2 h3 show ?thesis by simp
qed

subsection \<open>Replace mode\<close>

text \<open>
  Claim C6 as it is stated fails for an incident whose id is empty. Such an incident
  exists in \<open>emptyIdFile\<close>, where an update whose payload carried the key \<^verbatim>\<open>id\<close> renamed
  the stored incident. An update addressed to it, with a payload that has a status and no
  \<^verbatim>\<open>incident_update\<close>, merges nothing: the handler first checks that an id was given,
  answers that an id is required and leaves the store as it is.
\<close>

theorem replace_mode_empty_id_counterexample:
  "map inc_id (incidents (getTestData emptyIdFile)) = [[]] \<and>
   map inc_status (incidents (getTestData emptyIdFile)) = [''investigating''] \<and>
   p_incident_update (emptyPatch\<lparr>p_status := Some ''identified''\<rparr>) = None \<and>
   PATCH_incidents ''t2'' ''u2'' (Some []) (emptyPatch\<lparr>p_status := Some ''identified''\<rparr>)
       emptyIdFile
     = (Inl IdRequired, emptyIdFile)"
  by code_simp

text \<open>
  Claim C6, as amended. For an incident found under a non-empty id, a payload without
  \<^verbatim>\<open>incident_update\<close> is merged key by key into the incident record: each of \<^verbatim>\<open>id\<close>,
  \<^verbatim>\<open>name\<close>, \<^verbatim>\<open>status\<close>, \<^verbatim>\<open>impact\<close>, \<^verbatim>\<open>body\<close>, \<^verbatim>\<open>component_ids\<close>,
  \<^verbatim>\<open>created_at\<close> and \<^verbatim>\<open>incident_updates\<close> takes the payload's value when the payload
  has the key and keeps the stored value otherwise, every other key of the payload is set
  among the remaining fields, and \<^verbatim>\<open>updated_at\<close> is now. The incident's components array
  is replaced by the normalised payload when that is non-empty: a map with at least one
  entry, normalised against the stored components, or a non-empty array. A payload whose
  components normalise to the empty array, or that has none, leaves the prior array as
  it was.
\<close>

theorem replace_mode_components_guard:
  assumes "i \<noteq> []"
    and "findIndex (\<lambda>item. inc_id item = i) (incidents (getTestData fl)) = Some index"
    and "p_incident_update body = None"
  shows "\<exists>incident'.
     fst (PATCH_incidents now updateId (Some i) body fl) = Inr incident' \<and>
     incidents (getTestData (snd (PATCH_incidents now updateId (Some i) body fl)))
       = (incidents (getTestData fl))[index := incident'] \<and>
     inc_id incident' =
       (case p_id body of None \<Rightarrow> inc_id (incidents (getTestData fl) ! index) | Some v \<Rightarrow> v) \<and>
     inc_name incident' =
       (case p_name body of None \<Rightarrow> inc_name (incidents (getTestData fl) ! index)
        | Some v \<Rightarrow> v) \<and>
     inc_status incident' =
       (case p_status body of None \<Rightarrow> inc_status (incidents (getTestData fl) ! index)
        | Some v \<Rightarrow> v) \<and>
     inc_impact incident' =
       (case p_impact body of None \<Rightarrow> inc_impact (incidents (getTestData fl) ! index)
        | Some v \<Rightarrow> v) \<and>
     inc_body incident' =
       (case p_body body of None \<Rightarrow> inc_body (incidents (getTestData fl) ! index)
        | Some v \<Rightarrow> Some v) \<and>
     inc_component_ids incident' =
       (case p_component_ids body of
          None \<Rightarrow> inc_component_ids (incidents (getTestData fl) ! index) | Some v \<Rightarrow> v) \<and>
     inc_created_at incident' =
       (case p_created_at body of
          None \<Rightarrow> inc_created_at (incidents (getTestData fl) ! index) | Some v \<Rightarrow> v) \<and>
     inc_incident_updates incident' =
       (case p_incident_updates body of
          None \<Rightarrow> inc_incident_updates (incidents (getTestData fl) ! index)
        | Some v \<Rightarrow> Some v) \<and>
     inc_other incident' =
       fold (\<lambda>(k, v). AList.update k v) (p_other body)
         (inc_other (incidents (getTestData fl) ! index)) \<and>
     inc_updated_at incident' = now \<and>
     inc_components incident' =
       (case p_components body of
          MapForm entries \<Rightarrow>
            if entries \<noteq> [] then Some (normalizeComponents entries (components (getTestData fl)))
            else inc_components (incidents (getTestData fl) ! index)
        | ArrayForm arr \<Rightarrow>
            if arr \<noteq> [] then Some arr else inc_components (incidents (getTestData fl) ! index)
        | NoComponents \<Rightarrow> inc_components (incidents (getTestData fl) ! index))"
proof -
  let ?incident = "incidents (getTestData fl) ! index"
  let ?item = "fst (replaceFields now body ?incident fl)"
  have res: "PATCH_incidents now updateId (Some i) body fl =
      (Inr ?item,
       Some ((getTestData fl)\<lparr>incidents := (incidents (getTestData fl))[index := ?item]\<rparr>))"
    using assms(3) by (simp add: PATCH_incidents_found [OF assms(1,2)] Let_def)
  have comps: "inc_components ?item =
       (case p_components body of
          MapForm entries \<Rightarrow>
            if entries \<noteq> [] then Some (normalizeComponents entries (components (getTestData fl)))
            else inc_components ?incident
        | ArrayForm arr \<Rightarrow> if arr \<noteq> [] then Some arr else inc_components ?incident
        | NoComponents \<Rightarrow> inc_components ?incident)"
    by (cases "p_components body")
       (auto simp: replaceFields_def convertComponents_def Let_def snapshots_def
          normalizeComponents_def split: option.splits)
  have merged: "?item = (spreadBody ?incident body)
        \<lparr>inc_components := inc_components ?item, inc_updated_at := now\<rparr>"
    by (simp add: replaceFields_def Let_def split: prod.splits)
  have fields:
    "inc_id ?item = (case p_id body of None \<Rightarrow> inc_id ?incident | Some v \<Rightarrow> v)"
    "inc_name ?item = (case p_name body of None \<Rightarrow> inc_name ?incident | Some v \<Rightarrow> v)"
    "inc_status ?item = (case p_status body of None \<Rightarrow> inc_status ?incident | Some v \<Rightarrow> v)"
    "inc_impact ?item = (case p_impact body of None \<Rightarrow> inc_impact ?incident | Some v \<Rightarrow> v)"
    "inc_body ?item = (case p_body body of None \<Rightarrow> inc_body ?incident | Some v \<Rightarrow> Some v)"
    "inc_component_ids ?item =
       (case p_component_ids body of None \<Rightarrow> inc_component_ids ?incident | Some v \<Rightarrow> v)"
    "inc_created_at ?item =
       (case p_created_at body of None \<Rightarrow> inc_created_at ?incident | Some v \<Rightarrow> v)"
    "inc_incident_updates ?item =
       (case p_incident_updates body of None \<Rightarrow> inc_incident_updates ?incident
        | Some v \<Rightarrow> Some v)"
    "inc_other ?item = fold (\<lambda>(k, v). AList.update k v) (p_other body) (inc_other ?incident)"
    "inc_updated_at ?item = now"
    by (subst merged, simp add: spreadBody_def)+
  show ?thesis
    unfolding res using comps fields by (simp add: getTestData_def)
qed

text \<open>
  At \<open>oneIncidentFile\<close>: a payload with a new name and status and an empty components map
  renames the incident and keeps its impact and the snapshot of \<open>c1\<close>; a map with one
  entry replaces the snapshot.
\<close>

theorem replace_mode_components_guard_witness:
  "findIndex (\<lambda>item. inc_id item = ''i1'') (incidents (getTestData oneIncidentFile)) = Some 0 \<and>
   inc_components (incidents (getTestData oneIncidentFile) ! 0)
     = Some [stubComponent ''c1'' ''major_outage''] \<and>
   inc_status (incidents (getTestData oneIncidentFile) ! 0) = ''investigating'' \<and>
   (\<exists>incident'.
      fst (PATCH_incidents ''t1'' ''u1'' (Some ''i1'')
             (emptyPatch\<lparr>p_name := Some ''Renamed'', p_status := Some ''identified'',
                         p_components := MapForm []\<rparr>)
             oneIncidentFile) = Inr incident' \<and>
      inc_id incident' = ''i1'' \<and>
      inc_name incident' = ''Renamed'' \<and>
      inc_status incident' = ''identified'' \<and>
      inc_impact incident' = ''minor'' \<and>
      inc_updated_at incident' = ''t1'' \<and>
      inc_components incident' = Some [stubComponent ''c1'' ''major_outage'']) \<and>
   (\<exists>incident'.
      fst (PATCH_incidents ''t1'' ''u1'' (Some ''i1'')
             (emptyPatch\<lparr>p_components := MapForm [(''c2'', ''partial_outage'')]\<rparr>)
             oneIncidentFile) = Inr incident' \<and>
      inc_status incident' = ''investigating'' \<and>
      inc_components incident' = Some [stubComponent ''c2'' ''partial_outage''])"
proof -
  let ?keep = "emptyPatch\<lparr>p_name := Some ''Renamed'', p_status := Some ''identified'',
                         p_components := MapForm []\<rparr>"
  let ?swap = "emptyPatch\<lparr>p_components := MapForm [(''c2'', ''partial_outage'')]\<rparr>"
  have h1: "''i1'' \<noteq> []" by simp
  have h2: "findIndex (\<lambda>item. inc_id item = ''i1'') (incidents (getTestData oneIncidentFile)) = Some 0"
    by code_simp
  have h3: "p_incident_update ?keep = None" "p_incident_update ?swap = None"
    by code_simp+
  have old: "inc_components (incidents (getTestData oneIncidentFile) ! 0)
       = Some [stubComponent ''c1'' ''major_outage'']"
    "inc_status (incidents (getTestData oneIncidentFile) ! 0) = ''investigating''"
    "inc_id (incidents (getTestData oneIncidentFile) ! 0) = ''i1''"
    "inc_impact (incidents (getTestData oneIncidentFile) ! 0) = ''minor''"
    by code_simp+
  have pk: "p_id ?keep = None" "p_name ?keep = Some ''Renamed''"
    "p_status ?keep = Some ''identified''" "p_impact ?keep = None"
    "p_components ?keep = MapForm []"
    by (simp_all add: emptyPatch_def)
  have ps: "p_status ?swap = None"
    "p_components ?swap = MapForm [(''c2'', ''partial_outage'')]"
    by (simp_all add: emptyPatch_def)
  have norm: "normalizeComponents [(''c2'', ''partial_outage'')] (components (getTestData oneIncidentFile))
      = [stubComponent ''c2'' ''partial_outage'']"
    by code_simp
  from replace_mode_components_guard [OF h1 h2 h3(1), of "''t1''" "''u1''"]
  obtain a where a: "fst (PATCH_incidents ''t1'' ''u1'' (Some ''i1'') ?keep oneIncidentFile) = Inr a"
    and af: "inc_id a = (case p_id ?keep of
                 None \<Rightarrow> inc_id (incidents (getTestData oneIncidentFile) ! 0) | Some v \<Rightarrow> v)"
      "inc_name a = (case p_name ?keep of
                 None \<Rightarrow> inc_name (incidents (getTestData oneIncidentFile) ! 0) | Some v \<Rightarrow> v)"
      "inc_status a = (case p_status ?keep of
                 None \<Rightarrow> inc_status (incidents (getTestData oneIncidentFile) ! 0) | Some v \<Rightarrow> v)"
      "inc_impact a = (case p_impact ?keep of
                 None \<Rightarrow> inc_impact (incidents (getTestData oneIncidentFile) ! 0) | Some v \<Rightarrow> v)"
      "inc_updated_at a = ''t1''"
      "inc_components a = (case p_components ?keep of
          MapForm entries \<Rightarrow>
            if entries \<noteq> []
            then Some (normalizeComponents entries (components (getTestData oneIncidentFile)))
            else inc_components (incidents (getTestData oneIncidentFile) ! 0)
        | ArrayForm arr \<Rightarrow>
            if arr \<noteq> [] then Some arr
            else inc_components (incidents (getTestData oneIncidentFile) ! 0)
        | NoComponents \<Rightarrow> inc_components (incidents (getTestData oneIncidentFile) ! 0))"
    by blast
  from af have a': "inc_id a = ''i1''" "inc_name a = ''Renamed''" "inc_status a = ''identified''"
    "inc_impact a = ''minor''" "inc_updated_at a = ''t1''"
    "inc_components a = Some [stubComponent ''c1'' ''major_outage'']"
    unfolding pk by (simp_all add: old)
  from replace_mode_components_guard [OF h1 h2 h3(2), of "''t1''" "''u1''"]
  obtain b where b: "fst (PATCH_incidents ''t1'' ''u1'' (Some ''i1'') ?swap oneIncidentFile) = Inr b"
    and bf: "inc_status b = (case p_status ?swap of
                 None \<Rightarrow> inc_status (incidents (getTestData oneIncidentFile) ! 0) | Some v \<Rightarrow> v)"
      "inc_components b = (case p_components ?swap of
          MapForm entries \<Rightarrow>
            if entries \<noteq> []
            then Some (normalizeComponents entries (components (getTestData oneIncidentFile)))
            else inc_components (incidents (getTestData oneIncidentFile) ! 0)
        | ArrayForm arr \<Rightarrow>
            if arr \<noteq> [] then Some arr
            else inc_components (incidents (getTestData oneIncidentFile) ! 0)
        | NoComponents \<Rightarrow> inc_components (incidents (getTestData oneIncidentFile) ! 0))"
    by blast
  from bf have b': "inc_status b = ''investigating''"
    "inc_components b = Some [stubComponent ''c2'' ''partial_outage'']"
    unfolding ps by (simp_all add: old norm)
  from a a' b b' h2 old(1,2) show ?thesis by blast
qed

subsection \<open>Delete\<close>

text \<open>
  Claim C8 as it is stated fails for the empty id. No stored incident has the empty id,
  yet the answer is not the not-found signal: the handler first checks that an id was
  given, and answers that an id is required.
\<close>

theorem delete_empty_id_counterexample:
  "map inc_id (incidents (getTestData oneIncidentFile)) = [''i1''] \<and>
   DELETE ''incidents'' (Some []) oneIncidentFile = (Inl IdRequired, oneIncidentFile)"
  by code_simp

text \<open>
  Claim C8, as amended. For a non-empty id, deleting from the incidents answers not found
  exactly when no stored incident has that id, and then the backing file is left as it is.
  Otherwise it succeeds and removes the incidents with that id and nothing else: the
  other incidents keep their order, components and templates are unchanged.
\<close>

theorem delete_incident:
  assumes "i \<noteq> []"
  shows "(fst (DELETE ''incidents'' (Some i) fl) = Inl NotFound
            \<longleftrightarrow> i \<notin> inc_id ` set (incidents (getTestData fl))) \<and>
         (i \<notin> inc_id ` set (incidents (getTestData fl))
            \<longrightarrow> snd (DELETE ''incidents'' (Some i) fl) = fl) \<and>
         (i \<in> inc_id ` set (incidents (getTestData fl))
            \<longrightarrow> fst (DELETE ''incidents'' (Some i) fl) = Inr () \<and>
                incidents (getTestData (snd (DELETE ''incidents'' (Some i) fl)))
                  = filter (\<lambda>item. inc_id item \<noteq> i) (incidents (getTestData fl)) \<and>
                components (getTestData (snd (DELETE ''incidents'' (Some i) fl)))
                  = components (getTestData fl) \<and>
                templates (getTestData (snd (DELETE ''incidents'' (Some i) fl)))
                  = templates (getTestData fl))"
proof -
  have eq: "length (filter (\<lambda>item. inc_id item \<noteq> i) (incidents (getTestData fl)))
              = length (incidents (getTestData fl))
            \<longleftrightarrow> i \<notin> inc_id ` set (incidents (getTestData fl))"
    by (auto simp: length_filter_same)
  show ?thesis
  proof (cases "i \<in> inc_id ` set (incidents (getTestData fl))")
    case True
    with eq assms show ?thesis
      by (simp add: DELETE_def Let_def saveTestData_def) (simp add: getTestData_def)
  next
    case False
    with eq assms show ?thesis
      by (simp add: DELETE_def Let_def)
  qed
qed

theorem delete_incident_witness:
  "map inc_id (incidents (getTestData oneIncidentFile)) = [''i1''] \<and>
   fst (DELETE ''incidents'' (Some ''i1'') oneIncidentFile) = Inr () \<and>
   incidents (getTestData (snd (DELETE ''incidents'' (Some ''i1'') oneIncidentFile))) = [] \<and>
   fst (DELETE ''incidents'' (Some ''i2'') oneIncidentFile) = Inl NotFound \<and>
   snd (DELETE ''incidents'' (Some ''i2'') oneIncidentFile) = oneIncidentFile"
proof -
  have h1: "''i1'' \<noteq> []" and h2: "''i2'' \<noteq> []" by simp_all
  have ids: "map inc_id (incidents (getTestData oneIncidentFile)) = [''i1'']"
    by code_simp
  then have m: "inc_id ` set (incidents (getTestData oneIncidentFile)) = {''i1''}"
    by (metis list.set_map list.simps(15) set_empty2 empty_set)
  have f: "filter (\<lambda>item. inc_id item \<noteq> ''i1'') (incidents (getTestData oneIncidentFile)) = []"
    by code_simp
  from delete_incident [OF h1, of oneIncidentFile] delete_incident [OF h2, of oneIncidentFile]
  show ?thesis by (simp add: m f ids)
qed

section \<open>Properties of the tracker and the sweep\<close>

lemma trackerStep_noDuplicates:
  "noDuplicates (getDemoTracker fl) \<Longrightarrow> noDuplicates (getDemoTracker (trackerStep demo op fl))"
  by (cases op)
     (auto simp: noDuplicates_def getDemoTracker_def saveDemoTracker_def trackIncident_def
        trackComponent_def trackTemplate_def clearTrackedItems_def removeTrackedIncident_def
        removeTrackedComponent_def removeTrackedTemplate_def Let_def emptyTracker_def
        split: option.splits)

lemma trackerRun_noDuplicates:
  "noDuplicates (getDemoTracker fl) \<Longrightarrow> noDuplicates (getDemoTracker (trackerRun demo ops fl))"
  unfolding trackerRun_def
  by (induction ops arbitrary: fl) (simp_all add: trackerStep_noDuplicates)

text \<open>
  Claim C10. Starting from the empty tracker, after any sequence of the tracker's
  operations, with the demo flag on or off, none of the three id lists holds an id twice.
\<close>

theorem tracker_no_duplicates:
  "noDuplicates (getDemoTracker (trackerRun demo ops None))"
  by (rule trackerRun_noDuplicates) (simp add: noDuplicates_def getDemoTracker_def emptyTracker_def)

lemma removeTrackedIncident_get:
  "getDemoTracker (removeTrackedIncident i fl) =
     (getDemoTracker fl)\<lparr>tr_incidents := filter (\<lambda>x. x \<noteq> i) (tr_incidents (getDemoTracker fl))\<rparr>"
  by (simp add: removeTrackedIncident_def saveDemoTracker_def getDemoTracker_def Let_def)

lemma removeTrackedTemplate_get:
  "getDemoTracker (removeTrackedTemplate i fl) =
     (getDemoTracker fl)\<lparr>tr_templates := filter (\<lambda>x. x \<noteq> i) (tr_templates (getDemoTracker fl))\<rparr>"
  by (simp add: removeTrackedTemplate_def saveDemoTracker_def getDemoTracker_def Let_def)

lemma sweepIncident_step:
  "sweepIncident del i (fl, deleted, errors) = (fl', deleted', errors') \<Longrightarrow>
     getDemoTracker fl' = (getDemoTracker fl)
        \<lparr>tr_incidents := filter (\<lambda>x. \<not> (x = i \<and> untracks (del i))) (tr_incidents (getDemoTracker fl))\<rparr> \<and>
     errors' = errors @ (if untracks (del i) then [] else [incidentError del i])"
  by (auto simp: sweepIncident_def untracks_def incidentError_def removeTrackedIncident_get
      split: response.splits if_splits)

lemma sweepIncident_fold:
  "fold (sweepIncident del) ids (fl, deleted, errors) = (fl', deleted', errors') \<Longrightarrow>
     getDemoTracker fl' = (getDemoTracker fl)
        \<lparr>tr_incidents := filter (\<lambda>x. \<not> (x \<in> set ids \<and> untracks (del x))) (tr_incidents (getDemoTracker fl))\<rparr> \<and>
     errors' = errors @ map (incidentError del) (filter (\<lambda>x. \<not> untracks (del x)) ids)"
proof (induction ids arbitrary: fl deleted errors)
  case Nil
  then show ?case by simp
next
  case (Cons i ids)
  obtain f1 d1 e1 where one: "sweepIncident del i (fl, deleted, errors) = (f1, d1, e1)"
    by (cases "sweepIncident del i (fl, deleted, errors)") auto
  note s = sweepIncident_step [OF one]
  from Cons.prems one have "fold (sweepIncident del) ids (f1, d1, e1) = (fl', deleted', errors')"
    by simp
  note r = Cons.IH [OF this]
  have "filter (\<lambda>x. \<not> (x \<in> set ids \<and> untracks (del x)))
          (filter (\<lambda>x. \<not> (x = i \<and> untracks (del i))) xs)
        = filter (\<lambda>x. \<not> (x \<in> set (i # ids) \<and> untracks (del x))) xs" for xs
    by (induction xs) auto
  with r s show ?case by auto
qed

lemma sweepTemplate_step:
  "sweepTemplate del i (fl, deleted, errors) = (fl', deleted', errors') \<Longrightarrow>
     getDemoTracker fl' = (getDemoTracker fl)
        \<lparr>tr_templates := filter (\<lambda>x. \<not> (x = i \<and> untracks (del i))) (tr_templates (getDemoTracker fl))\<rparr> \<and>
     errors' = errors @ (if untracks (del i) then [] else [templateError del i])"
  by (auto simp: sweepTemplate_def untracks_def templateError_def removeTrackedTemplate_get
      split: response.splits if_splits)

lemma sweepTemplate_fold:
  "fold (sweepTemplate del) ids (fl, deleted, errors) = (fl', deleted', errors') \<Longrightarrow>
     getDemoTracker fl' = (getDemoTracker fl)
        \<lparr>tr_templates := filter (\<lambda>x. \<not> (x \<in> set ids \<and> untracks (del x))) (tr_templates (getDemoTracker fl))\<rparr> \<and>
     errors' = errors @ map (templateError del) (filter (\<lambda>x. \<not> untracks (del x)) ids)"
proof (induction ids arbitrary: fl deleted errors)
  case Nil
  then show ?case by simp
next
  case (Cons i ids)
  obtain f1 d1 e1 where one: "sweepTemplate del i (fl, deleted, errors) = (f1, d1, e1)"
    by (cases "sweepTemplate del i (fl, deleted, errors)") auto
  note s = sweepTemplate_step [OF one]
  from Cons.prems one have "fold (sweepTemplate del) ids (f1, d1, e1) = (fl', deleted', errors')"
    by simp
  note r = Cons.IH [OF this]
  have "filter (\<lambda>x. \<not> (x \<in> set ids \<and> untracks (del x)))
          (filter (\<lambda>x. \<not> (x = i \<and> untracks (del i))) xs)
        = filter (\<lambda>x. \<not> (x \<in> set (i # ids) \<and> untracks (del x))) xs" for xs
    by (induction xs) auto
  with r s show ?case by auto
qed

lemma cleanupGET_runs:
  assumes "demoModeEnabled env" and "validateCronRequest env authHeader"
    and "truthy (apiKey env)" and "truthy (pageId env)"
  shows "\<exists>report fl'.
     cleanupGET env authHeader delI delT now fl = (Inr report, fl') \<and>
     tr_incidents (getDemoTracker fl')
       = filter (\<lambda>x. \<not> untracks (delI x)) (tr_incidents (getDemoTracker fl)) \<and>
     tr_templates (getDemoTracker fl')
       = filter (\<lambda>x. \<not> untracks (delT x)) (tr_templates (getDemoTracker fl)) \<and>
     tr_components (getDemoTracker fl') = tr_components (getDemoTracker fl) \<and>
     rep_errors report =
       (let es = map (incidentError delI) (filter (\<lambda>x. \<not> untracks (delI x)) (tr_incidents (getDemoTracker fl))) @
                 map (templateError delT) (filter (\<lambda>x. \<not> untracks (delT x)) (tr_templates (getDemoTracker fl)))
        in if es = [] then None else Some es)"
proof -
  let ?t = "getDemoTracker fl"
  obtain f1 d1 e1 where one:
    "fold (sweepIncident delI) (tr_incidents ?t) (fl, [], []) = (f1, d1, e1)"
    by (cases "fold (sweepIncident delI) (tr_incidents ?t) (fl, [], [])") auto
  obtain f2 d2 e2 where two:
    "fold (sweepTemplate delT) (tr_templates ?t) (f1, d1, e1) = (f2, d2, e2)"
    by (cases "fold (sweepTemplate delT) (tr_templates ?t) (f1, d1, e1)") auto
  note a = sweepIncident_fold [OF one]
  note b = sweepTemplate_fold [OF two]
  have res: "cleanupGET env authHeader delI delT now fl =
      (Inr \<lparr>rep_deleted = d2, rep_errors = (if length e2 > 0 then Some e2 else None),
            rep_timestamp = now\<rparr>, f2)"
    using assms one two by (simp add: cleanupGET_def getTrackedItems_def Let_def)
  from a b have "tr_incidents (getDemoTracker f2)
       = filter (\<lambda>x. \<not> untracks (delI x)) (tr_incidents ?t)"
    and "tr_templates (getDemoTracker f2)
       = filter (\<lambda>x. \<not> untracks (delT x)) (tr_templates ?t)"
    and "tr_components (getDemoTracker f2) = tr_components ?t"
    and "e2 = map (incidentError delI) (filter (\<lambda>x. \<not> untracks (delI x)) (tr_incidents ?t)) @
              map (templateError delT) (filter (\<lambda>x. \<not> untracks (delT x)) (tr_templates ?t))"
    by (simp_all add: filter_own_members)
  then show ?thesis
    unfolding res by (simp add: Let_def)
qed

text \<open>
  Claim C9. When the sweep runs (demo mode is enabled, the request is accepted and the
  credentials are configured), a tracked incident id whose delete call answers with a
  success status or with 404 is no longer tracked afterwards. A tracked incident id whose
  delete call fails in any other way, an HTTP 500 for instance or an exception, is still
  tracked afterwards, and the report lists an error line for it. The same holds for the
  tracked template ids.
\<close>

theorem sweep_retry:
  assumes "demoModeEnabled env" and "validateCronRequest env authHeader"
    and "truthy (apiKey env)" and "truthy (pageId env)"
  shows "(i \<in> set (tr_incidents (getDemoTracker fl)) \<and> untracks (deleteIncident i) \<longrightarrow>
            i \<notin> set (tr_incidents (getDemoTracker
                  (snd (cleanupGET env authHeader deleteIncident deleteTemplate now fl))))) \<and>
         (i \<in> set (tr_incidents (getDemoTracker fl)) \<and> \<not> untracks (deleteIncident i) \<longrightarrow>
            i \<in> set (tr_incidents (getDemoTracker
                  (snd (cleanupGET env authHeader deleteIncident deleteTemplate now fl)))) \<and>
            (\<exists>report es.
               fst (cleanupGET env authHeader deleteIncident deleteTemplate now fl) = Inr report \<and>
               rep_errors report = Some es \<and> incidentError deleteIncident i \<in> set es)) \<and>
         (i \<in> set (tr_templates (getDemoTracker fl)) \<and> untracks (deleteTemplate i) \<longrightarrow>
            i \<notin> set (tr_templates (getDemoTracker
                  (snd (cleanupGET env authHeader deleteIncident deleteTemplate now fl))))) \<and>
         (i \<in> set (tr_templates (getDemoTracker fl)) \<and> \<not> untracks (deleteTemplate i) \<longrightarrow>
            i \<in> set (tr_templates (getDemoTracker
                  (snd (cleanupGET env authHeader deleteIncident deleteTemplate now fl)))) \<and>
            (\<exists>report es.
               fst (cleanupGET env authHeader deleteIncident deleteTemplate now fl) = Inr report \<and>
               rep_errors report = Some es \<and> templateError deleteTemplate i \<in> set es))"
proof -
  from cleanupGET_runs [OF assms, of deleteIncident deleteTemplate now fl]
  obtain report fl' where
    r: "cleanupGET env authHeader deleteIncident deleteTemplate now fl = (Inr report, fl')"
    and ti: "tr_incidents (getDemoTracker fl')
       = filter (\<lambda>x. \<not> untracks (deleteIncident x)) (tr_incidents (getDemoTracker fl))"
    and tt: "tr_templates (getDemoTracker fl')
       = filter (\<lambda>x. \<not> untracks (deleteTemplate x)) (tr_templates (getDemoTracker fl))"
    and es: "rep_errors report =
       (let es = map (incidentError deleteIncident) (filter (\<lambda>x. \<not> untracks (deleteIncident x)) (tr_incidents (getDemoTracker fl))) @
                 map (templateError deleteTemplate) (filter (\<lambda>x. \<not> untracks (deleteTemplate x)) (tr_templates (getDemoTracker fl)))
        in if es = [] then None else Some es)"
    by blast
  show ?thesis
    unfolding r using ti tt es by (auto simp: Let_def filter_empty_conv)
qed

text \<open>
  At \<open>trackedFile\<close>, with a live system that answers 404 for \<open>gone\<close>, 200 for \<open>done\<close>
  and 500 for the rest.
\<close>

theorem sweep_retry_witness:
  "tr_incidents (getDemoTracker trackedFile) = [''gone'', ''busy''] \<and>
   tr_templates (getDemoTracker trackedFile) = [''done'', ''stuck''] \<and>
   liveDelete ''gone'' = Response 404 ''Not found'' \<and>
   liveDelete ''busy'' = Response 500 ''Internal Server Error'' \<and>
   liveDelete ''done'' = Response 200 [] \<and>
   liveDelete ''stuck'' = Response 500 ''Internal Server Error'' \<and>
   ''gone'' \<notin> set (tr_incidents (getDemoTracker
       (snd (cleanupGET sampleEnv None liveDelete liveDelete ''t1'' trackedFile)))) \<and>
   ''busy'' \<in> set (tr_incidents (getDemoTracker
       (snd (cleanupGET sampleEnv None liveDelete liveDelete ''t1'' trackedFile)))) \<and>
   ''done'' \<notin> set (tr_templates (getDemoTracker
       (snd (cleanupGET sampleEnv None liveDelete liveDelete ''t1'' trackedFile)))) \<and>
   ''stuck'' \<in> set (tr_templates (getDemoTracker
       (snd (cleanupGET sampleEnv None liveDelete liveDelete ''t1'' trackedFile)))) \<and>
   (\<exists>report es.
       fst (cleanupGET sampleEnv None liveDelete liveDelete ''t1'' trackedFile) = Inr report \<and>
       rep_errors report = Some es \<and>
       ''incident:busy - Internal Server Error'' \<in> set es)"
proof -
  have h: "demoModeEnabled sampleEnv" "validateCronRequest sampleEnv None"
    "truthy (apiKey sampleEnv)" "truthy (pageId sampleEnv)"
    by code_simp+
  have tracked: "tr_incidents (getDemoTracker trackedFile) = [''gone'', ''busy'']"
    "tr_templates (getDemoTracker trackedFile) = [''done'', ''stuck'']"
    by code_simp+
  have live: "liveDelete ''gone'' = Response 404 ''Not found''"
    "liveDelete ''busy'' = Response 500 ''Internal Server Error''"
    "liveDelete ''done'' = Response 200 []"
    "liveDelete ''stuck'' = Response 500 ''Internal Server Error''"
    by code_simp+
  have u: "untracks (liveDelete ''gone'')" "\<not> untracks (liveDelete ''busy'')"
    "untracks (liveDelete ''done'')" "\<not> untracks (liveDelete ''stuck'')"
    by code_simp+
  have e: "incidentError liveDelete ''busy'' = ''incident:busy - Internal Server Error''"
    by code_simp
  note s = sweep_retry [OF h, where fl = trackedFile and deleteIncident = liveDelete
      and deleteTemplate = liveDelete and now = "''t1''"]
  from s [of "''gone''"] s [of "''busy''"] s [of "''done''"] s [of "''stuck''"]
  have "''gone'' \<notin> set (tr_incidents (getDemoTracker
       (snd (cleanupGET sampleEnv None liveDelete liveDelete ''t1'' trackedFile)))) \<and>
   ''busy'' \<in> set (tr_incidents (getDemoTracker
       (snd (cleanupGET sampleEnv None liveDelete liveDelete ''t1'' trackedFile)))) \<and>
   ''done'' \<notin> set (tr_templates (getDemoTracker
       (snd (cleanupGET sampleEnv None liveDelete liveDelete ''t1'' trackedFile)))) \<and>
   ''stuck'' \<in> set (tr_templates (getDemoTracker
       (snd (cleanupGET sampleEnv None liveDelete liveDelete ''t1'' trackedFile)))) \<and>
   (\<exists>report es.
       fst (cleanupGET sampleEnv None liveDelete liveDelete ''t1'' trackedFile) = Inr report \<and>
       rep_errors report = Some es \<and>
       ''incident:busy - Internal Server Error'' \<in> set es)"
    unfolding tracked using u e by simp
  with tracked live show ?thesis by simp
qed

end
